theory Spec2Isabelle
  imports Complex_Main "HOL-Library.AList"
begin

section \<open>Python values\<close>

text \<open>
  A Python \<open>str\<close> is a sequence of Unicode code points, and \<open>len\<close> counts code points:
  a string is a list of natural numbers. \<open>lit\<close> turns an ASCII literal into its code
  points; characters outside ASCII are written by their code point.
\<close>

type_synonym pystr = "nat list"

definition lit :: "string \<Rightarrow> pystr" where
  "lit s = map of_char s"

text \<open>\<open>xs[i:]\<close> for any integer \<open>i\<close>: a negative index counts from the end and is
  clamped at the start of the list.\<close>

definition py_slice_from :: "'a list \<Rightarrow> int \<Rightarrow> 'a list" where
  "py_slice_from xs i =
     (if i < 0 then drop (nat (int (length xs) + i)) xs else drop (nat i) xs)"

text \<open>\<open>s.find(c)\<close> for a single character: the first index of \<open>c\<close>, or \<open>-1\<close>.\<close>

fun py_find :: "pystr \<Rightarrow> nat \<Rightarrow> int" where
  "py_find [] c = -1"
| "py_find (x # xs) c =
     (if x = c then 0 else (let r = py_find xs c in if r < 0 then -1 else r + 1))"

text \<open>\<open>sub in s\<close> on strings.\<close>

fun py_in :: "pystr \<Rightarrow> pystr \<Rightarrow> bool" where
  "py_in sub [] = (sub = [])"
| "py_in sub (c # cs) = (take (length sub) (c # cs) = sub \<or> py_in sub cs)"

text \<open>\<open>sep.join(parts)\<close>.\<close>

fun py_join :: "pystr \<Rightarrow> pystr list \<Rightarrow> pystr" where
  "py_join sep [] = []"
| "py_join sep [p] = p"
| "py_join sep (p # q # ps) = p @ sep @ py_join sep (q # ps)"

text \<open>\<open>str(n)\<close> for integers: decimal digits, with a sign for negative numbers.\<close>

fun str_nat :: "nat \<Rightarrow> pystr" where
  "str_nat n = (if n < 10 then [48 + n] else str_nat (n div 10) @ [48 + n mod 10])"

declare str_nat.simps [simp del]

definition str_int :: "int \<Rightarrow> pystr" where
  "str_int i = (if i < 0 then 45 # str_nat (nat (- i)) else str_nat (nat i))"

text \<open>
  The characters for which \<open>str.isspace\<close> holds; \<open>str.strip()\<close> and the regular
  expression class \<open>\s\<close> on \<open>str\<close> patterns use the same set.
\<close>

definition isspace :: "nat \<Rightarrow> bool" where
  "isspace c \<longleftrightarrow>
     (9 \<le> c \<and> c \<le> 13) \<or> (28 \<le> c \<and> c \<le> 32) \<or> c = 133 \<or> c = 160 \<or> c = 5760 \<or>
     (8192 \<le> c \<and> c \<le> 8202) \<or> c = 8232 \<or> c = 8233 \<or> c = 8239 \<or> c = 8287 \<or> c = 12288"

definition strip :: "pystr \<Rightarrow> pystr" where
  "strip s = rev (dropWhile isspace (rev (dropWhile isspace s)))"

text \<open>
  An exception is its class and its message (\<open>str(e)\<close>). \<open>RequestsConnectionError\<close> and
  \<open>RequestsTimeout\<close> are the classes of \<open>requests.exceptions\<close>; an exception that is
  both (a connect timeout) is caught by the first handler that names one of its classes,
  which in this program is always the connection handler, so it is classed there.
\<close>

datatype exc_class =
  RuntimeError | ConnectionError | ValueError | TypeError | KeyError
  | RequestsConnectionError | RequestsTimeout | OtherException

datatype py_exc = Exc exc_class pystr

fun exc_message :: "py_exc \<Rightarrow> pystr" where
  "exc_message (Exc c m) = m"

fun exc_class_of :: "py_exc \<Rightarrow> exc_class" where
  "exc_class_of (Exc c m) = c"

section \<open>Configuration (config.py)\<close>

record config =
  ollama_base_url :: pystr
  llm_model :: pystr
  embedding_model :: pystr
  chunk_size :: int
  chunk_overlap :: int
  top_k_results :: int
  collection_name :: pystr
  persist_directory :: pystr
  max_documents :: int
  max_conversation_history :: int
  include_conversation_context :: bool

definition default_config :: config where
  "default_config =
     \<lparr>ollama_base_url = lit ''http://localhost:11434'', llm_model = lit ''llama3.2'',
      embedding_model = lit ''nomic-embed-text'', chunk_size = 400, chunk_overlap = 100,
      top_k_results = 5, collection_name = lit ''study_documents'',
      persist_directory = lit ''./chroma_db'', max_documents = 20,
      max_conversation_history = 5, include_conversation_context = True\<rparr>"

section \<open>The Ollama backend\<close>

text \<open>
  \<open>requests.post\<close> either raises or returns a response with a status code, a body text
  and a JSON body. The third component of \<open>Response\<close> is the outcome of reading the
  field the caller needs from the JSON body (\<open>response.json()["embedding"]\<close>,
  \<open>response.json()["response"]\<close>), which raises when the body is not JSON or lacks it.

  The backend answers the \<open>k\<close>-th request to an endpoint as a function of \<open>k\<close> and of
  the text sent, so that a request repeated later may be answered differently. The
  program's state counts the requests it has issued to each endpoint.
\<close>

datatype 'a http_result = Response int pystr "py_exc + 'a" | Raises py_exc

record ollama =
  embeddings_api :: "nat \<Rightarrow> pystr \<Rightarrow> real list http_result"
  generate_api :: "nat \<Rightarrow> pystr \<Rightarrow> pystr http_result"

section \<open>Chunks\<close>

text \<open>A chunk is the dictionary \<open>{'text', 'page', 'document'}\<close> built by the chunker.\<close>

record chunk =
  chunk_text :: pystr
  chunk_page :: int
  chunk_document :: pystr

section \<open>Document processor (document_processor.py)\<close>

text \<open>
  The regular expression class \<open>\d\<close> on \<open>str\<close> patterns and \<open>int()\<close> accept every
  Unicode decimal digit. In ASCII these are \<open>0\<close> to \<open>9\<close>; for the code points beyond
  ASCII the table of the runtime is the parameter \<open>nd\<close>, which gives the value of a
  decimal digit and \<open>None\<close> for any other character.
\<close>

definition decimal_value :: "(nat \<Rightarrow> nat option) \<Rightarrow> nat \<Rightarrow> nat option" where
  "decimal_value nd c =
     (if c < 128 then (if 48 \<le> c \<and> c \<le> 57 then Some (c - 48) else None) else nd c)"

definition is_decimal :: "(nat \<Rightarrow> nat option) \<Rightarrow> nat \<Rightarrow> bool" where
  "is_decimal nd c \<longleftrightarrow> decimal_value nd c \<noteq> None"

text \<open>\<open>int(s)\<close> on a non-empty string of decimal digits. Python's integers are unbounded;
  the limit some runtimes put on the number of digits \<open>int()\<close> accepts is not modelled.\<close>

definition int_of_digits :: "(nat \<Rightarrow> nat option) \<Rightarrow> pystr \<Rightarrow> int" where
  "int_of_digits nd ds =
     foldl (\<lambda>a c. 10 * a + (case decimal_value nd c of Some d \<Rightarrow> int d | None \<Rightarrow> 0)) 0 ds"

text \<open>\<open>re.split(r'\n\n+', text)\<close>: the pieces between the maximal runs of two or more
  newlines. The first argument is the piece read so far.\<close>

function split_paragraphs_from :: "pystr \<Rightarrow> pystr \<Rightarrow> pystr list" where
  "split_paragraphs_from cur [] = [cur]"
| "split_paragraphs_from cur (c # cs) =
     (if c = 10 \<and> cs \<noteq> [] \<and> hd cs = 10
      then cur # split_paragraphs_from [] (dropWhile (\<lambda>x. x = 10) cs)
      else split_paragraphs_from (cur @ [c]) cs)"
  by pat_completeness auto
termination
  by (relation "measure (\<lambda>(cur, s). length s)")
     (auto simp: length_dropWhile_le le_imp_less_Suc)

definition split_paragraphs :: "pystr \<Rightarrow> pystr list" where
  "split_paragraphs s = split_paragraphs_from [] s"

text \<open>A match of \<open>\[Page (\d+)\]\<close> at the start of \<open>s\<close>: the digits of the group and
  what follows the closing bracket. The closing bracket is no digit, so the greedy run of
  digits is the only candidate for the group.\<close>

definition match_page_marker :: "(nat \<Rightarrow> nat option) \<Rightarrow> pystr \<Rightarrow> (pystr \<times> pystr) option" where
  "match_page_marker nd s =
     (if take 6 s = lit ''[Page '' then
        (let r = drop 6 s;
             ds = takeWhile (is_decimal nd) r;
             r' = dropWhile (is_decimal nd) r
         in if ds \<noteq> [] \<and> r' \<noteq> [] \<and> hd r' = 93 then Some (ds, tl r') else None)
      else None)"

text \<open>\<open>re.sub(r'\[Page \d+\]\s*', '', para)\<close>: every marker, with the white space after
  it, is removed, scanning from the left.\<close>

function remove_page_markers :: "(nat \<Rightarrow> nat option) \<Rightarrow> pystr \<Rightarrow> pystr" where
  "remove_page_markers nd [] = []"
| "remove_page_markers nd (c # cs) =
     (case match_page_marker nd (c # cs) of
        Some (ds, rest) \<Rightarrow> remove_page_markers nd (dropWhile isspace rest)
      | None \<Rightarrow> c # remove_page_markers nd cs)"
  by pat_completeness auto
termination
proof (relation "measure (\<lambda>(nd, s). length s)", goal_cases)
  case 1
  show ?case by simp
next
  case 2
  then show ?case by simp
next
  case (3 nd c cs x2 ds rest)
  then have "rest = tl (dropWhile (is_decimal nd) (drop 6 (c # cs)))"
    by (auto simp: match_page_marker_def Let_def split: if_splits)
  then have "length rest \<le> length (c # cs) - 6"
    by (metis diff_le_self le_trans length_drop length_dropWhile_le length_tl)
  moreover have "length (dropWhile isspace rest) \<le> length rest"
    by (rule length_dropWhile_le)
  ultimately show ?case by simp
qed

text \<open>\<open>re.split(r'(?<=[.!?])\s+', paragraph)\<close>: the pieces between the maximal runs of
  white space that follow a full stop, an exclamation mark or a question mark.\<close>

definition sentence_end :: "nat \<Rightarrow> bool" where
  "sentence_end c \<longleftrightarrow> c = 46 \<or> c = 33 \<or> c = 63"

function split_sentences_from :: "pystr \<Rightarrow> pystr \<Rightarrow> pystr list" where
  "split_sentences_from cur [] = [cur]"
| "split_sentences_from cur (c # cs) =
     (if sentence_end c \<and> cs \<noteq> [] \<and> isspace (hd cs)
      then (cur @ [c]) # split_sentences_from [] (dropWhile isspace cs)
      else split_sentences_from (cur @ [c]) cs)"
  by pat_completeness auto
termination
  by (relation "measure (\<lambda>(cur, s). length s)")
     (auto simp: length_dropWhile_le le_imp_less_Suc)

definition split_sentences :: "pystr \<Rightarrow> pystr list" where
  "split_sentences s = split_sentences_from [] s"

definition get_overlap_text :: "pystr \<Rightarrow> int \<Rightarrow> pystr" where
  "get_overlap_text txt overlap_chars =
     (if int (length txt) \<le> overlap_chars then txt
      else
        let overlap_text = py_slice_from txt (- overlap_chars);
            space_idx = py_find overlap_text 32
        in if space_idx > 0 then py_slice_from overlap_text (space_idx + 1) else overlap_text)"

text \<open>The body of the loop of \<open>_split_long_paragraph\<close>, on the pair of \<open>chunks\<close> and
  \<open>current\<close>.\<close>

definition sentence_step ::
  "int \<Rightarrow> pystr \<Rightarrow> int \<Rightarrow> int \<Rightarrow> chunk list \<times> pystr \<Rightarrow> pystr \<Rightarrow> chunk list \<times> pystr" where
  "sentence_step pg doc chunk_sz overlap st sentence =
     (case st of (chunks, current) \<Rightarrow>
        if int (length current) + int (length sentence) + 1 \<le> chunk_sz
        then (chunks, if current \<noteq> [] then current @ [32] @ sentence else sentence)
        else
          (if strip current \<noteq> []
           then chunks @ [\<lparr>chunk_text = strip current, chunk_page = pg, chunk_document = doc\<rparr>]
           else chunks,
           if current \<noteq> [] \<and> overlap > 0
           then get_overlap_text current overlap @ [32] @ sentence else sentence))"

definition split_long_paragraph :: "pystr \<Rightarrow> int \<Rightarrow> pystr \<Rightarrow> int \<Rightarrow> int \<Rightarrow> chunk list" where
  "split_long_paragraph paragraph pg doc chunk_sz overlap =
     (case foldl (sentence_step pg doc chunk_sz overlap) ([], []) (split_sentences paragraph) of
        (chunks, current) \<Rightarrow>
          if strip current \<noteq> []
          then chunks @ [\<lparr>chunk_text = strip current, chunk_page = pg, chunk_document = doc\<rparr>]
          else chunks)"

text \<open>The variables of the loop of \<open>smart_chunk_text\<close>.\<close>

record chunker =
  chunk_list :: "chunk list"
  current_page :: int
  current_chunk :: pystr
  current_chunk_page :: int

text \<open>The page a paragraph announces, if it starts with a marker, and the paragraph
  with its markers removed and stripped: the first lines of the loop body.\<close>

definition paragraph_page :: "(nat \<Rightarrow> nat option) \<Rightarrow> int \<Rightarrow> pystr \<Rightarrow> int" where
  "paragraph_page nd cur_page para =
     (case match_page_marker nd para of
        Some (ds, rest) \<Rightarrow> int_of_digits nd ds
      | None \<Rightarrow> cur_page)"

definition paragraph_body :: "(nat \<Rightarrow> nat option) \<Rightarrow> pystr \<Rightarrow> pystr" where
  "paragraph_body nd para =
     strip (case match_page_marker nd para of
              Some (ds, rest) \<Rightarrow> remove_page_markers nd para
            | None \<Rightarrow> para)"

definition flush_chunk :: "pystr \<Rightarrow> chunker \<Rightarrow> chunk list" where
  "flush_chunk doc st =
     (if strip (current_chunk st) \<noteq> []
      then chunk_list st @ [\<lparr>chunk_text = strip (current_chunk st),
                         chunk_page = current_chunk_page st, chunk_document = doc\<rparr>]
      else chunk_list st)"

definition paragraph_step ::
  "(nat \<Rightarrow> nat option) \<Rightarrow> pystr \<Rightarrow> int \<Rightarrow> int \<Rightarrow> chunker \<Rightarrow> pystr \<Rightarrow> chunker" where
  "paragraph_step nd doc chunk_sz overlap st para0 =
     (let pg = paragraph_page nd (current_page st) para0;
          para = paragraph_body nd para0;
          st = st\<lparr>current_page := pg\<rparr>
      in if para = [] then st
         else if int (length (current_chunk st)) + int (length para) + 1 \<le> chunk_sz then
           (if current_chunk st \<noteq> []
            then st\<lparr>current_chunk := current_chunk st @ [10, 10] @ para\<rparr>
            else st\<lparr>current_chunk := para, current_chunk_page := pg\<rparr>)
         else
           (let st' = st\<lparr>chunk_list := flush_chunk doc st\<rparr>
            in if int (length para) > chunk_sz
               then st'\<lparr>chunk_list := chunk_list st' @ split_long_paragraph para pg doc chunk_sz overlap,
                        current_chunk := []\<rparr>
               else st'\<lparr>current_chunk :=
                          (if current_chunk st' \<noteq> [] \<and> overlap > 0
                           then get_overlap_text (current_chunk st') overlap @ [10, 10] @ para
                           else para),
                        current_chunk_page := pg\<rparr>))"

text \<open>\<open>page_map\<close> is a parameter of the function that its body never reads.\<close>

definition smart_chunk_text ::
  "(nat \<Rightarrow> nat option) \<Rightarrow> pystr \<Rightarrow> (int \<times> pystr) list \<Rightarrow> pystr \<Rightarrow> int \<Rightarrow> int \<Rightarrow> chunk list" where
  "smart_chunk_text nd txt page_map document_name chunk_sz overlap =
     (if txt = [] \<or> strip txt = [] then []
      else flush_chunk document_name
             (foldl (paragraph_step nd document_name chunk_sz overlap)
                \<lparr>chunk_list = [], current_page = 1, current_chunk = [], current_chunk_page = 1\<rparr>
                (split_paragraphs txt)))"

section \<open>Vector store (vector_store.py)\<close>

text \<open>
  The Chroma collection is an external collaborator. It is modelled by its contract: a
  sequence of records keyed by id, in insertion order. \<open>get()['ids']\<close> lists the ids,
  \<open>add\<close> refuses a batch that repeats an id and ignores a record whose id is already
  stored, \<open>delete(ids)\<close> removes exactly the records whose id is listed, and \<open>query\<close>
  refuses an empty query embedding, a result count below one and a query embedding whose
  dimension is not the collection's, and otherwise returns the stored records that match
  the filter, nearest first, at most the requested number.
\<close>

record metadata =
  meta_document :: pystr
  meta_page :: int
  chunk_index :: nat

record col_record =
  rec_embedding :: "real list"
  rec_document :: pystr
  rec_metadata :: metadata

type_synonym chroma_collection = "(pystr \<times> col_record) list"

definition collection_ids :: "chroma_collection \<Rightarrow> pystr list" where
  "collection_ids col = map fst col"

definition collection_add ::
  "chroma_collection \<Rightarrow> pystr list \<Rightarrow> real list list \<Rightarrow> pystr list \<Rightarrow> metadata list
     \<Rightarrow> py_exc + chroma_collection" where
  "collection_add col ids embeddings docs metadatas =
     (if \<not> distinct ids then Inl (Exc ValueError (lit ''Expected IDs to be unique''))
      else Inr (col @ filter (\<lambda>(i, r). i \<notin> set (collection_ids col))
                  (zip ids (map (\<lambda>(e, d, m). \<lparr>rec_embedding = e, rec_document = d, rec_metadata = m\<rparr>)
                     (zip embeddings (zip docs metadatas))))))"

definition collection_delete :: "chroma_collection \<Rightarrow> pystr list \<Rightarrow> chroma_collection" where
  "collection_delete col ids = filter (\<lambda>(i, r). i \<notin> set ids) col"

text \<open>
  What the collection takes from outside the program: the distance of its embedding
  space, and the dimension it recorded when its first record was added, which it keeps
  when its records are deleted (\<open>None\<close> for a collection that never held a record).
  While the collection holds records, its dimension is theirs.
\<close>

record embedding_space =
  distance :: "real list \<Rightarrow> real list \<Rightarrow> real"
  recorded_dimension :: "nat option"

definition index_dimension :: "embedding_space \<Rightarrow> chroma_collection \<Rightarrow> nat option" where
  "index_dimension space col =
     (case col of
        [] \<Rightarrow> recorded_dimension space
      | (i, r) # rest \<Rightarrow> Some (length (rec_embedding r)))"

definition collection_query ::
  "embedding_space \<Rightarrow> chroma_collection \<Rightarrow> real list \<Rightarrow> int \<Rightarrow> pystr option
     \<Rightarrow> py_exc + (pystr \<times> metadata \<times> real) list" where
  "collection_query space col q n_results where_document =
     (if q = []
      then Inl (Exc ValueError (lit ''Expected each embedding in the embeddings to be a non-empty list''))
      else if n_results \<le> 0
      then Inl (Exc TypeError (lit ''Number of requested results cannot be negative, or zero.''))
      else if index_dimension space col \<noteq> None \<and> index_dimension space col \<noteq> Some (length q)
      then Inl (Exc OtherException (lit ''Embedding dimension does not match collection dimensionality''))
      else Inr (take (nat n_results)
             (sort_key (\<lambda>(d, m, x). x)
                (map (\<lambda>(i, r). (rec_document r, rec_metadata r,
                                 distance space q (rec_embedding r)))
                   (filter (\<lambda>(i, r). case where_document of None \<Rightarrow> True
                                       | Some d \<Rightarrow> meta_document (rec_metadata r) = d) col)))))"

text \<open>
  The registry \<open>_documents\<close> is a dictionary from document name to
  \<open>{'chunk_count', 'chunk_ids'}\<close>, kept in insertion order; every change is written to
  the registry file at once, so the file holds the same value and is not modelled apart.
  \<open>embedding_posts\<close> counts the requests issued to the embeddings endpoint.
\<close>

record doc_info =
  chunk_count :: nat
  chunk_ids :: "pystr list"

record vector_store =
  documents :: "(pystr \<times> doc_info) list"
  collection :: chroma_collection
  embedding_posts :: nat

definition get_embedding ::
  "ollama \<Rightarrow> vector_store \<Rightarrow> pystr \<Rightarrow> (py_exc + real list) \<times> vector_store" where
  "get_embedding api vs txt =
     (let vs' = vs\<lparr>embedding_posts := Suc (embedding_posts vs)\<rparr> in
      case embeddings_api api (embedding_posts vs) txt of
        Raises e \<Rightarrow> (Inl e, vs')
      | Response status_code body js \<Rightarrow>
          if status_code \<noteq> 200
          then (Inl (Exc RuntimeError (lit ''Ollama embedding failed: '' @ body)), vs')
          else (js, vs'))"

fun get_embeddings_batch ::
  "ollama \<Rightarrow> vector_store \<Rightarrow> pystr list \<Rightarrow> (py_exc + real list list) \<times> vector_store" where
  "get_embeddings_batch api vs [] = (Inr [], vs)"
| "get_embeddings_batch api vs (t # ts) =
     (case get_embedding api vs t of
        (Inl e, vs') \<Rightarrow> (Inl e, vs')
      | (Inr v, vs') \<Rightarrow>
          (case get_embeddings_batch api vs' ts of
             (Inl e, vs'') \<Rightarrow> (Inl e, vs'')
           | (Inr embeddings, vs'') \<Rightarrow> (Inr (v # embeddings), vs'')))"

text \<open>The id of chunk \<open>i\<close> of a document: \<open>f"doc_{document_name}_{i}"\<close>.\<close>

definition doc_chunk_id :: "pystr \<Rightarrow> nat \<Rightarrow> pystr" where
  "doc_chunk_id document_name i = lit ''doc_'' @ document_name @ lit ''_'' @ str_nat i"

definition remove_document :: "vector_store \<Rightarrow> pystr \<Rightarrow> bool \<times> vector_store" where
  "remove_document vs document_name =
     (case map_of (documents vs) document_name of
        None \<Rightarrow> (False, vs)
      | Some info \<Rightarrow>
          (True, vs\<lparr>collection := collection_delete (collection vs) (chunk_ids info),
                    documents := AList.delete document_name (documents vs)\<rparr>))"

definition add_document ::
  "ollama \<Rightarrow> vector_store \<Rightarrow> pystr \<Rightarrow> chunk list \<Rightarrow> (py_exc + nat) \<times> vector_store" where
  "add_document api vs document_name chunks =
     (if chunks = [] then (Inr 0, vs)
      else
        let vs1 = (if document_name \<in> set (map fst (documents vs))
                   then snd (remove_document vs document_name) else vs);
            texts = map chunk_text chunks
        in case get_embeddings_batch api vs1 texts of
             (Inl e, vs2) \<Rightarrow> (Inl e, vs2)
           | (Inr embeddings, vs2) \<Rightarrow>
               (let ids = map (doc_chunk_id document_name) [0..<length chunks];
                    metadatas = map (\<lambda>(i, c). \<lparr>meta_document = chunk_document c,
                                                meta_page = chunk_page c, chunk_index = i\<rparr>)
                                  (enumerate 0 chunks)
                in (case collection_add (collection vs2) ids embeddings texts metadatas of
                      Inl e \<Rightarrow> (Inl e, vs2)
                    | Inr col \<Rightarrow>
                        (Inr (length chunks),
                         vs2\<lparr>collection := col,
                             documents := AList.update document_name
                                \<lparr>chunk_count = length chunks, chunk_ids = ids\<rparr>
                                (documents vs2)\<rparr>))))"

text \<open>A formatted query result:
  \<open>{'content', 'metadata', 'distance', 'page', 'document'}\<close>.\<close>

record hit =
  hit_content :: pystr
  hit_metadata :: metadata
  hit_distance :: real
  hit_page :: int
  hit_document :: pystr

definition format_hit :: "pystr \<times> metadata \<times> real \<Rightarrow> hit" where
  "format_hit h = (case h of (doc, m, x) \<Rightarrow>
     \<lparr>hit_content = doc, hit_metadata = m, hit_distance = x,
      hit_page = meta_page m, hit_document = meta_document m\<rparr>)"

definition query ::
  "ollama \<Rightarrow> embedding_space \<Rightarrow> vector_store \<Rightarrow> pystr \<Rightarrow> int \<Rightarrow> pystr option
     \<Rightarrow> (py_exc + hit list) \<times> vector_store" where
  "query api space vs question n_results document_filter =
     (case get_embedding api vs question of
        (Inl e, vs') \<Rightarrow> (Inl e, vs')
      | (Inr question_embedding, vs') \<Rightarrow>
          (let where_filter = (case document_filter of
                                 None \<Rightarrow> None
                               | Some d \<Rightarrow> if d = [] then None else Some d);
               total_docs = int (length (collection_ids (collection vs')));
               n = (if total_docs > 0 then min n_results total_docs else 1)
           in (case collection_query space (collection vs') question_embedding n where_filter of
                 Inl e \<Rightarrow> (Inl e, vs')
               | Inr results \<Rightarrow> (Inr (map format_hit results), vs'))))"

definition get_documents :: "vector_store \<Rightarrow> pystr list" where
  "get_documents vs = map fst (documents vs)"

definition get_document_info :: "vector_store \<Rightarrow> pystr \<Rightarrow> doc_info option" where
  "get_document_info vs document_name = map_of (documents vs) document_name"

definition clear :: "vector_store \<Rightarrow> vector_store" where
  "clear vs = vs\<lparr>collection := [], documents := []\<rparr>"

definition document_count :: "vector_store \<Rightarrow> nat" where
  "document_count vs = length (documents vs)"

definition total_chunk_count :: "vector_store \<Rightarrow> nat" where
  "total_chunk_count vs = length (collection_ids (collection vs))"

section \<open>RAG engine (rag_engine.py)\<close>

record exchange =
  question :: pystr
  answer :: pystr
  timestamp :: pystr

record session_stats =
  documents_processed :: nat
  questions_asked :: nat
  chunks_retrieved :: nat
  session_start :: pystr

text \<open>\<open>generate_posts\<close> counts the requests issued to the generation endpoint.\<close>

record rag_engine =
  config :: config
  vector_store :: vector_store
  conversation_history :: "exchange list"
  session_stats :: session_stats
  generate_posts :: nat

text \<open>
  What the engine takes from the Python runtime: \<open>str.lower\<close>, the value of
  \<open>datetime.now().isoformat()\<close> at the call, and \<open>round(x, 1)\<close> on floats. Distances are
  floats in the program and real numbers here; the relevance of a source card is the
  only arithmetic done on them.
\<close>

record runtime =
  str_lower :: "pystr \<Rightarrow> pystr"
  now_isoformat :: pystr
  round_1 :: "real \<Rightarrow> real"

record source_card =
  src_document :: pystr
  src_page :: int
  src_content :: pystr
  src_relevance :: real

record response =
  resp_answer :: pystr
  resp_sources :: "source_card list"
  resp_documents_searched :: "pystr list"
  resp_error :: "pystr option"

text \<open>The local \<open>recent\<close> of \<open>_build_conversation_context\<close>:
  \<open>self._conversation_history[-self.config.max_conversation_history:]\<close>.\<close>

definition recent_exchanges :: "rag_engine \<Rightarrow> exchange list" where
  "recent_exchanges eng =
     py_slice_from (conversation_history eng) (- max_conversation_history (config eng))"

definition build_conversation_context :: "rag_engine \<Rightarrow> pystr" where
  "build_conversation_context eng =
     (if conversation_history eng = [] then []
      else
        let recent = recent_exchanges eng;
            context_parts = lit ''PREVIOUS CONVERSATION:'' #
              concat (map (\<lambda>ex. [lit ''User: '' @ question ex,
                                 lit ''Assistant: '' @
                                   (if length (answer ex) > 200
                                    then take 200 (answer ex) @ lit ''...'' else answer ex)])
                        recent)
        in py_join [10] context_parts)"

definition add_to_history :: "runtime \<Rightarrow> rag_engine \<Rightarrow> pystr \<Rightarrow> pystr \<Rightarrow> rag_engine" where
  "add_to_history rt eng q a =
     (let h = conversation_history eng @
                [\<lparr>question = q, answer = a, timestamp = now_isoformat rt\<rparr>];
          max_history = max_conversation_history (config eng) * 2
      in eng\<lparr>conversation_history :=
               (if int (length h) > max_history then py_slice_from h (- max_history) else h)\<rparr>)"

definition timed_out_answer :: pystr where
  "timed_out_answer = [9201, 65039] @ lit '' Response timed out. Try a shorter question.''"

text \<open>The handlers of the \<open>try\<close> block of \<open>_generate_answer\<close>, in their order.\<close>

definition generate_handlers :: "py_exc \<Rightarrow> py_exc + pystr" where
  "generate_handlers e =
     (if exc_class_of e = RequestsConnectionError
      then Inl (Exc ConnectionError (lit ''Cannot connect to Ollama''))
      else if exc_class_of e = RequestsTimeout then Inr timed_out_answer
      else Inl (Exc RuntimeError (lit ''LLM error: '' @ exc_message e)))"

definition build_prompt :: "pystr \<Rightarrow> pystr \<Rightarrow> pystr \<Rightarrow> pystr" where
  "build_prompt q context conv_context =
     py_join [10]
       ([lit ''You are a helpful, friendly study assistant. Answer questions based on the provided study materials.'',
         [], lit ''STUDY MATERIALS:'', context]
        @ (if conv_context \<noteq> [] then [[], conv_context] else [])
        @ [[], lit ''CURRENT QUESTION: '' @ q, [], lit ''INSTRUCTIONS:'',
           lit ''- Answer based ONLY on the study materials above'',
           lit ''- If the answer isn'' @ [39] @ lit ''t in the materials, say so honestly'',
           lit ''- Reference the source document and page when relevant'',
           lit ''- Be clear, educational, and helpful'',
           [], lit ''YOUR ANSWER:''])"

definition generate_answer ::
  "ollama \<Rightarrow> rag_engine \<Rightarrow> pystr \<Rightarrow> pystr \<Rightarrow> pystr \<Rightarrow> (py_exc + pystr) \<times> rag_engine" where
  "generate_answer api eng q context conv_context =
     (let prompt = build_prompt q context conv_context;
          eng' = eng\<lparr>generate_posts := Suc (generate_posts eng)\<rparr>
      in case generate_api api (generate_posts eng) prompt of
           Raises e \<Rightarrow> (generate_handlers e, eng')
         | Response status_code body js \<Rightarrow>
             if status_code \<noteq> 200 then (Inr (lit ''Error from Ollama: '' @ body), eng')
             else (case js of
                     Inl e \<Rightarrow> (generate_handlers e, eng')
                   | Inr r \<Rightarrow> (Inr (strip r), eng')))"

definition no_documents_response :: response where
  "no_documents_response =
     \<lparr>resp_answer = [128218] @ lit '' Please upload a document first before asking questions.'',
      resp_sources = [], resp_documents_searched = [], resp_error = None\<rparr>"

text \<open>The \<open>except Exception\<close> handler of \<open>ask_question\<close>.\<close>

definition error_response :: "runtime \<Rightarrow> py_exc \<Rightarrow> response" where
  "error_response rt e =
     (let error_msg = exc_message e in
      if py_in (lit ''connection'') (str_lower rt error_msg)
      then \<lparr>resp_answer = [10060] @ lit '' Cannot connect to Ollama. Please run: '' @ [96]
                             @ lit ''ollama serve'' @ [96],
            resp_sources = [], resp_documents_searched = [],
            resp_error = Some (lit ''connection_error'')\<rparr>
      else \<lparr>resp_answer = [10060] @ lit '' An error occurred: '' @ error_msg,
            resp_sources = [], resp_documents_searched = [],
            resp_error = Some (lit ''unknown_error'')\<rparr>)"

definition source_of_hit :: "runtime \<Rightarrow> hit \<Rightarrow> source_card" where
  "source_of_hit rt c =
     \<lparr>src_document = hit_document c, src_page = hit_page c,
      src_content = (if length (hit_content c) > 250
                     then take 250 (hit_content c) @ lit ''...'' else hit_content c),
      src_relevance = round_1 rt ((1 - hit_distance c) * 100)\<rparr>"

text \<open>The context block: one entry per retrieved chunk, in retrieval order.\<close>

definition build_context :: "hit list \<Rightarrow> pystr" where
  "build_context relevant_chunks =
     py_join ([10, 10] @ lit ''---'' @ [10, 10])
       (map (\<lambda>(i, c). lit ''[Source '' @ str_nat (i + 1) @ lit ''] ''
              @ lit ''['' @ hit_document c @ lit '', Page '' @ str_int (hit_page c)
              @ lit '']'' @ [10] @ hit_content c)
          (enumerate 0 relevant_chunks))"

text \<open>The engine after a query that returned: the store as the query left it, and the
  two counters updated.\<close>

definition after_query :: "rag_engine \<Rightarrow> vector_store \<Rightarrow> hit list \<Rightarrow> rag_engine" where
  "after_query eng vs' relevant_chunks =
     eng\<lparr>vector_store := vs',
         session_stats := (session_stats eng)
           \<lparr>questions_asked := questions_asked (session_stats eng) + 1,
            chunks_retrieved := chunks_retrieved (session_stats eng) + length relevant_chunks\<rparr>\<rparr>"

definition not_found_response :: "rag_engine \<Rightarrow> response" where
  "not_found_response eng =
     \<lparr>resp_answer = lit ''I couldn'' @ [39] @ lit ''t find any relevant information in the documents. Try rephrasing or uploading more content.'',
      resp_sources = [],
      resp_documents_searched = get_documents (vector_store eng),
      resp_error = None\<rparr>"

text \<open>
  \<open>documents_searched\<close> on success is \<open>list(set(...))\<close>, whose order Python leaves
  open; the model lists each name once, in order of first occurrence.
\<close>

definition success_response :: "runtime \<Rightarrow> pystr \<Rightarrow> hit list \<Rightarrow> response" where
  "success_response rt a relevant_chunks =
     (let sources = map (source_of_hit rt) relevant_chunks
      in \<lparr>resp_answer = a, resp_sources = sources,
          resp_documents_searched = remdups (map src_document sources),
          resp_error = None\<rparr>)"

text \<open>The part of the \<open>try\<close> block of \<open>ask_question\<close> that follows the statistics
  update.\<close>

definition answer_from_chunks ::
  "ollama \<Rightarrow> runtime \<Rightarrow> rag_engine \<Rightarrow> pystr \<Rightarrow> hit list \<Rightarrow> bool \<Rightarrow> response \<times> rag_engine" where
  "answer_from_chunks api rt eng q relevant_chunks use_conversation_memory =
     (if relevant_chunks = [] then (not_found_response eng, eng)
      else
        let context = build_context relevant_chunks;
            conv_context =
              (if use_conversation_memory \<and> include_conversation_context (config eng)
               then build_conversation_context eng else [])
        in case generate_answer api eng q context conv_context of
             (Inl e, eng2) \<Rightarrow> (error_response rt e, eng2)
           | (Inr a, eng2) \<Rightarrow>
               (success_response rt a relevant_chunks, add_to_history rt eng2 q a))"

definition ask_question ::
  "ollama \<Rightarrow> embedding_space \<Rightarrow> runtime \<Rightarrow> rag_engine \<Rightarrow> pystr \<Rightarrow> pystr option
     \<Rightarrow> bool \<Rightarrow> response \<times> rag_engine" where
  "ask_question api space rt eng q document_filter use_conversation_memory =
     (if document_count (vector_store eng) = 0 then (no_documents_response, eng)
      else
        case query api space (vector_store eng) q (top_k_results (config eng)) document_filter of
          (Inl e, vs') \<Rightarrow> (error_response rt e, eng\<lparr>vector_store := vs'\<rparr>)
        | (Inr relevant_chunks, vs') \<Rightarrow>
            answer_from_chunks api rt (after_query eng vs' relevant_chunks) q relevant_chunks
              use_conversation_memory)"

text \<open>\<open>RAGEngine.__init__\<close>, given the configuration and the store as opened from its
  persistence directory.\<close>

definition init_engine :: "runtime \<Rightarrow> config \<Rightarrow> vector_store \<Rightarrow> rag_engine" where
  "init_engine rt cfg vs =
     \<lparr>config = cfg, vector_store = vs, conversation_history = [],
      session_stats = \<lparr>documents_processed = 0, questions_asked = 0, chunks_retrieved = 0,
                        session_start = now_isoformat rt\<rparr>,
      generate_posts = 0\<rparr>"

definition clear_conversation :: "rag_engine \<Rightarrow> rag_engine" where
  "clear_conversation eng = eng\<lparr>conversation_history := []\<rparr>"

definition clear_all :: "runtime \<Rightarrow> rag_engine \<Rightarrow> rag_engine" where
  "clear_all rt eng =
     (clear_conversation (eng\<lparr>vector_store := clear (vector_store eng)\<rparr>))
       \<lparr>session_stats := \<lparr>documents_processed = 0, questions_asked = 0, chunks_retrieved = 0,
                          session_start = now_isoformat rt\<rparr>\<rparr>"

section \<open>Auxiliary definitions\<close>

text \<open>The ids and the records that \<open>add_document\<close> hands to the collection.\<close>

definition new_ids :: "pystr \<Rightarrow> chunk list \<Rightarrow> pystr list" where
  "new_ids name cs = map (doc_chunk_id name) [0..<length cs]"

definition new_records :: "real list list \<Rightarrow> chunk list \<Rightarrow> col_record list" where
  "new_records embs cs =
     map (\<lambda>(e, d, m). \<lparr>rec_embedding = e, rec_document = d, rec_metadata = m\<rparr>)
       (zip embs (zip (map chunk_text cs)
          (map (\<lambda>(i, c). \<lparr>meta_document = chunk_document c, meta_page = chunk_page c,
                           chunk_index = i\<rparr>) (enumerate 0 cs))))"

text \<open>The locals \<open>n_results\<close> (as passed to the collection) and \<open>where_filter\<close> of
  \<open>query\<close>.\<close>

definition effective_n_results :: "vector_store \<Rightarrow> int \<Rightarrow> int" where
  "effective_n_results vs k =
     (if int (length (collection_ids (collection vs))) > 0
      then min k (int (length (collection_ids (collection vs)))) else 1)"

definition where_of_filter :: "pystr option \<Rightarrow> pystr option" where
  "where_of_filter f = (case f of None \<Rightarrow> None | Some d \<Rightarrow> if d = [] then None else Some d)"

text \<open>The loop invariant of \<open>smart_chunk_text\<close> used for the length bound: the buffer
  and every chunk flushed from it stay within \<open>B\<close>, and any other chunk comes from
  splitting a paragraph of the text that is longer than the chunk size.\<close>

definition chunk_within ::
  "(nat \<Rightarrow> nat option) \<Rightarrow> pystr list \<Rightarrow> pystr \<Rightarrow> int \<Rightarrow> int \<Rightarrow> int \<Rightarrow> chunk \<Rightarrow> bool" where
  "chunk_within nd paras doc S ov B c \<longleftrightarrow>
     int (length (chunk_text c)) \<le> B \<or>
     (\<exists>p \<in> set paras. S < int (length (paragraph_body nd p)) \<and>
        (\<exists>pg. c \<in> set (split_long_paragraph (paragraph_body nd p) pg doc S ov)))"

definition chunker_inv ::
  "(nat \<Rightarrow> nat option) \<Rightarrow> pystr list \<Rightarrow> pystr \<Rightarrow> int \<Rightarrow> int \<Rightarrow> chunker \<Rightarrow> bool" where
  "chunker_inv nd paras doc S ov st \<longleftrightarrow>
     (current_chunk st = [] \<or> int (length (current_chunk st)) \<le> S + max 0 ov + 2) \<and>
     (\<forall>c \<in> set (chunk_list st). chunk_within nd paras doc S ov (S + max 0 ov + 2) c)"

text \<open>
  What holds of the registry and the index in every store reached from an empty one by
  \<open>add_document\<close>, \<open>remove_document\<close> and \<open>clear\<close>: the registry has one entry for
  a name, the ids registered for a name are \<open>doc_<name>_0\<close>, \<open>doc_<name>_1\<close>, ... up
  to its chunk count, and every record of the index is registered to a document.
  \<open>tags_ok\<close> adds that a record is tagged, in its metadata, with the document it is
  registered to, which holds when every chunk handed to \<open>add_document\<close> carries the
  name it is added under, as the chunks of \<open>smart_chunk_text\<close> do.
\<close>

definition registry_ok :: "vector_store \<Rightarrow> bool" where
  "registry_ok vs \<longleftrightarrow>
     distinct (map fst (documents vs)) \<and>
     (\<forall>(n, info) \<in> set (documents vs).
        chunk_ids info = map (doc_chunk_id n) [0..<chunk_count info]) \<and>
     (\<forall>i \<in> set (collection_ids (collection vs)).
        \<exists>(n, info) \<in> set (documents vs). i \<in> set (chunk_ids info))"

definition tags_ok :: "vector_store \<Rightarrow> bool" where
  "tags_ok vs \<longleftrightarrow>
     (\<forall>(n, info) \<in> set (documents vs). \<forall>(i, r) \<in> set (collection vs).
        i \<in> set (chunk_ids info) \<longrightarrow> meta_document (rec_metadata r) = n)"

subsection \<open>Concrete values\<close>

definition ascii_only :: "nat \<Rightarrow> nat option" where
  "ascii_only c = None"

definition empty_store :: vector_store where
  "empty_store = \<lparr>documents = [], collection = [], embedding_posts = 0\<rparr>"

definition example_runtime :: runtime where
  "example_runtime =
     \<lparr>str_lower = (\<lambda>s. s), now_isoformat = lit ''2024-01-01T00:00:00'', round_1 = (\<lambda>x. x)\<rparr>"

text \<open>A backend whose embedding endpoint answers and whose generation endpoint times
  out, one where both answer, and one whose embedding endpoint is unreachable.\<close>

definition timeout_api :: ollama where
  "timeout_api = \<lparr>embeddings_api = (\<lambda>k t. Response 200 [] (Inr [0])),
                   generate_api = (\<lambda>k p. Raises (Exc RequestsTimeout []))\<rparr>"

definition working_api :: ollama where
  "working_api = \<lparr>embeddings_api = (\<lambda>k t. Response 200 [] (Inr [0])),
                   generate_api = (\<lambda>k p. Response 200 [] (Inr (lit ''ok'')))\<rparr>"

definition down_api :: ollama where
  "down_api = \<lparr>embeddings_api = (\<lambda>k t. Raises (Exc RequestsConnectionError (lit ''Connection refused''))),
                generate_api = (\<lambda>k p. Raises (Exc RequestsConnectionError (lit ''Connection refused'')))\<rparr>"

text \<open>A backend whose embedding endpoint answers 404, as for a model that is not
  installed.\<close>

definition missing_model_api :: ollama where
  "missing_model_api =
     \<lparr>embeddings_api = (\<lambda>k t. Response 404 (lit ''model not found'')
                                  (Inl (Exc KeyError (lit ''embedding'')))),
      generate_api = (\<lambda>k p. Response 404 (lit ''model not found'')
                                (Inl (Exc KeyError (lit ''response''))))\<rparr>"

text \<open>An embedding space in which all embeddings are at distance zero, and the real
  line, where an embedding is read as the sum of its components; neither collection has
  recorded a dimension.\<close>

definition flat_space :: embedding_space where
  "flat_space = \<lparr>distance = (\<lambda>a b. 0), recorded_dimension = None\<rparr>"

definition line_space :: embedding_space where
  "line_space = \<lparr>distance = (\<lambda>a b. \<bar>sum_list a - sum_list b\<bar>), recorded_dimension = None\<rparr>"

definition example_chunk :: chunk where
  "example_chunk = \<lparr>chunk_text = lit ''x'', chunk_page = 1, chunk_document = lit ''a''\<rparr>"

text \<open>The store after \<open>add_document('a', [example_chunk])\<close> on an empty store, but for
  the request counter.\<close>

definition one_doc_store :: vector_store where
  "one_doc_store =
     \<lparr>documents = [(lit ''a'', \<lparr>chunk_count = 1, chunk_ids = [lit ''doc_a_0'']\<rparr>)],
      collection = [(lit ''doc_a_0'', \<lparr>rec_embedding = [0], rec_document = lit ''x'',
         rec_metadata = \<lparr>meta_document = lit ''a'', meta_page = 1, chunk_index = 0\<rparr>\<rparr>)],
      embedding_posts = 0\<rparr>"

definition one_doc_engine :: rag_engine where
  "one_doc_engine = init_engine example_runtime default_config one_doc_store"

text \<open>An engine configured with a conversation window of zero exchanges.\<close>

definition no_memory_engine :: rag_engine where
  "no_memory_engine =
     init_engine example_runtime (default_config\<lparr>max_conversation_history := 0\<rparr>) empty_store"

text \<open>Two paragraphs of nine and ten characters, chunked below with size 10 and overlap 5.\<close>

definition overlap_text_example :: pystr where
  "overlap_text_example = lit ''aaaaaaaaa'' @ [10, 10] @ lit ''bbbbbbbbbb''"

text \<open>A store of one document with two chunks, the first stored at 3 and the second
  at 1 on the real line.\<close>

definition ranked_store :: vector_store where
  "ranked_store =
     \<lparr>documents = [(lit ''a'', \<lparr>chunk_count = 2,
                                 chunk_ids = [lit ''doc_a_0'', lit ''doc_a_1'']\<rparr>)],
      collection = [(lit ''doc_a_0'', \<lparr>rec_embedding = [3], rec_document = lit ''far'',
         rec_metadata = \<lparr>meta_document = lit ''a'', meta_page = 1, chunk_index = 0\<rparr>\<rparr>),
                    (lit ''doc_a_1'', \<lparr>rec_embedding = [1], rec_document = lit ''near'',
         rec_metadata = \<lparr>meta_document = lit ''a'', meta_page = 2, chunk_index = 1\<rparr>\<rparr>)],
      embedding_posts = 0\<rparr>"

text \<open>The two results of a query at 0 on that store, nearest first.\<close>

definition near_hit :: hit where
  "near_hit = \<lparr>hit_content = lit ''near'',
               hit_metadata = \<lparr>meta_document = lit ''a'', meta_page = 2, chunk_index = 1\<rparr>,
               hit_distance = 1, hit_page = 2, hit_document = lit ''a''\<rparr>"

definition far_hit :: hit where
  "far_hit = \<lparr>hit_content = lit ''far'',
               hit_metadata = \<lparr>meta_document = lit ''a'', meta_page = 1, chunk_index = 0\<rparr>,
               hit_distance = 3, hit_page = 1, hit_document = lit ''a''\<rparr>"

definition second_chunk :: chunk where
  "second_chunk = \<lparr>chunk_text = lit ''y'', chunk_page = 2, chunk_document = lit ''a''\<rparr>"

definition two_doc_store :: vector_store where
  "two_doc_store =
     \<lparr>documents = [(lit ''a'', \<lparr>chunk_count = 1, chunk_ids = [lit ''doc_a_0'']\<rparr>),
                   (lit ''b'', \<lparr>chunk_count = 1, chunk_ids = [lit ''doc_b_0'']\<rparr>)],
      collection = [(lit ''doc_a_0'', \<lparr>rec_embedding = [0], rec_document = lit ''x'',
         rec_metadata = \<lparr>meta_document = lit ''a'', meta_page = 1, chunk_index = 0\<rparr>\<rparr>),
                    (lit ''doc_b_0'', \<lparr>rec_embedding = [0], rec_document = lit ''z'',
         rec_metadata = \<lparr>meta_document = lit ''b'', meta_page = 1, chunk_index = 0\<rparr>\<rparr>)],
      embedding_posts = 0\<rparr>"

section \<open>Properties of the engine\<close>

lemma generate_answer_frame:
  "session_stats (snd (generate_answer api eng q c cc)) = session_stats eng \<and>
   conversation_history (snd (generate_answer api eng q c cc)) = conversation_history eng \<and>
   vector_store (snd (generate_answer api eng q c cc)) = vector_store eng \<and>
   config (snd (generate_answer api eng q c cc)) = config eng \<and>
   generate_posts (snd (generate_answer api eng q c cc)) = Suc (generate_posts eng)"
  by (simp add: generate_answer_def Let_def split: http_result.splits sum.splits)

lemma add_to_history_frame:
  "session_stats (add_to_history rt eng q a) = session_stats eng \<and>
   vector_store (add_to_history rt eng q a) = vector_store eng \<and>
   config (add_to_history rt eng q a) = config eng \<and>
   generate_posts (add_to_history rt eng q a) = generate_posts eng"
  by (simp add: add_to_history_def Let_def)

lemma answer_from_chunks_statistics:
  "session_stats (snd (answer_from_chunks api rt eng q hits m)) = session_stats eng"
proof (cases "hits = []")
  case True
  then show ?thesis by (simp add: answer_from_chunks_def)
next
  case False
  let ?cc = "if m \<and> include_conversation_context (config eng)
             then build_conversation_context eng else []"
  obtain g eng2 where ga: "generate_answer api eng q (build_context hits) ?cc = (g, eng2)"
    by (cases "generate_answer api eng q (build_context hits) ?cc")
  from generate_answer_frame [of api eng q "build_context hits" ?cc] ga
  have "session_stats eng2 = session_stats eng" by simp
  with False ga show ?thesis
    by (cases g) (simp_all add: answer_from_chunks_def Let_def add_to_history_frame)
qed

text \<open>Asking a question never resets a statistic: the counters do not decrease and the
  session start stays.\<close>

lemma ask_question_statistics:
  "documents_processed (session_stats (snd (ask_question api space rt eng q f m)))
     = documents_processed (session_stats eng) \<and>
   questions_asked (session_stats eng)
     \<le> questions_asked (session_stats (snd (ask_question api space rt eng q f m))) \<and>
   chunks_retrieved (session_stats eng)
     \<le> chunks_retrieved (session_stats (snd (ask_question api space rt eng q f m))) \<and>
   session_start (session_stats (snd (ask_question api space rt eng q f m)))
     = session_start (session_stats eng)"
proof (cases "document_count (vector_store eng) = 0")
  case True
  then show ?thesis by (simp add: ask_question_def)
next
  case False
  obtain r vs' where
    qr: "query api space (vector_store eng) q (top_k_results (config eng)) f = (r, vs')"
    by (cases "query api space (vector_store eng) q (top_k_results (config eng)) f")
  show ?thesis
  proof (cases r)
    case (Inl e)
    with False qr show ?thesis by (simp add: ask_question_def)
  next
    case (Inr hits)
    with False qr have "session_stats (snd (ask_question api space rt eng q f m))
        = session_stats (after_query eng vs' hits)"
      by (simp add: ask_question_def answer_from_chunks_statistics)
    then show ?thesis by (simp add: after_query_def)
  qed
qed

text \<open>
  Claim C9. Clearing the conversation empties the history and leaves the session
  statistics as they are; the full clear is the operation that resets them, to zero
  counters and a new session start.
\<close>

theorem clear_conversation_keeps_statistics:
  "conversation_history (clear_conversation eng) = [] \<and>
   session_stats (clear_conversation eng) = session_stats eng \<and>
   session_stats (clear_all rt eng) =
     \<lparr>documents_processed = 0, questions_asked = 0, chunks_retrieved = 0,
      session_start = now_isoformat rt\<rparr> \<and>
   conversation_history (clear_all rt eng) = []"
  by (simp add: clear_conversation_def clear_all_def)

text \<open>
  Claim C8. With no document in the registry, \<open>ask_question\<close> returns the fixed
  upload-a-document-first answer with no sources, no documents searched and no error,
  and the engine is returned as it was: no request is issued to either endpoint (the
  request counters are part of the state) and nothing else changes.
\<close>

theorem ask_question_no_documents:
  assumes "document_count (vector_store eng) = 0"
  shows "ask_question api space rt eng q document_filter use_conversation_memory
           = (no_documents_response, eng) \<and>
         resp_answer no_documents_response =
           [128218] @ lit '' Please upload a document first before asking questions.'' \<and>
         resp_sources no_documents_response = [] \<and>
         resp_documents_searched no_documents_response = [] \<and>
         resp_error no_documents_response = None"
  using assms by (simp add: ask_question_def no_documents_response_def)

theorem ask_question_no_documents_witness:
  "document_count (vector_store (init_engine example_runtime default_config empty_store)) = 0 \<and>
   ask_question down_api flat_space example_runtime
       (init_engine example_runtime default_config empty_store) (lit ''why?'') None True
     = (no_documents_response, init_engine example_runtime default_config empty_store)"
proof -
  have h: "document_count (vector_store (init_engine example_runtime default_config empty_store)) = 0"
    by (simp add: document_count_def init_engine_def empty_store_def)
  from ask_question_no_documents [OF h] h show ?thesis by blast
qed

subsection \<open>Conversation history\<close>

text \<open>With a window of at least one exchange the history stays within twice the window,
  eviction keeps a suffix of the history, and the prompt reads the last window.\<close>

lemma add_to_history_bounded:
  assumes "0 < max_conversation_history (config eng)"
  shows "int (length (conversation_history (add_to_history rt eng q a)))
           \<le> 2 * max_conversation_history (config eng)"
  using assms by (simp add: add_to_history_def Let_def py_slice_from_def)

lemma py_slice_from_is_drop: "\<exists>k. py_slice_from xs i = drop k xs"
  by (auto simp: py_slice_from_def)

lemma add_to_history_suffix:
  "\<exists>k. conversation_history (add_to_history rt eng q a) =
        drop k (conversation_history eng @
                  [\<lparr>question = q, answer = a, timestamp = now_isoformat rt\<rparr>])"
proof -
  let ?h = "conversation_history eng @ [\<lparr>question = q, answer = a, timestamp = now_isoformat rt\<rparr>]"
  let ?n = "max_conversation_history (config eng) * 2"
  obtain k where k: "py_slice_from ?h (- ?n) = drop k ?h"
    using py_slice_from_is_drop by blast
  have "conversation_history (add_to_history rt eng q a) =
          (if int (length ?h) > ?n then py_slice_from ?h (- ?n) else ?h)"
    by (simp add: add_to_history_def Let_def)
  then have "conversation_history (add_to_history rt eng q a) = drop k ?h \<or>
             conversation_history (add_to_history rt eng q a) = drop 0 ?h"
    using k by (simp split: if_splits)
  then show ?thesis by blast
qed

lemma recent_exchanges_window:
  assumes "0 < max_conversation_history (config eng)"
  shows "recent_exchanges eng =
           drop (length (conversation_history eng) - nat (max_conversation_history (config eng)))
             (conversation_history eng)"
proof -
  have "nat (int (length (conversation_history eng)) - max_conversation_history (config eng))
        = length (conversation_history eng) - nat (max_conversation_history (config eng))"
    using assms by linarith
  with assms show ?thesis by (simp add: recent_exchanges_def py_slice_from_def)
qed

text \<open>
  Claim C7. The history never holds more than twice \<open>max_conversation_history\<close>
  entries, and the prompt reads at most the last \<open>max_conversation_history\<close> of them.
  With a window of zero the slices \<open>history[-0:]\<close> keep the whole list: after one
  append to an empty history the history holds one entry, more than twice zero, and the
  prompt reads it.
\<close>

theorem history_unbounded_without_window:
  "max_conversation_history (config no_memory_engine) = 0 \<and>
   conversation_history no_memory_engine = [] \<and>
   length (conversation_history
             (add_to_history example_runtime no_memory_engine (lit ''q'') (lit ''a''))) = 1 \<and>
   length (recent_exchanges
             (add_to_history example_runtime no_memory_engine (lit ''q'') (lit ''a''))) = 1"
  by (simp add: no_memory_engine_def init_engine_def default_config_def add_to_history_def
        recent_exchanges_def py_slice_from_def Let_def)

subsection \<open>A generation call that times out\<close>

text \<open>
  Claim C2, as the code has it. When the generation request times out,
  \<open>_generate_answer\<close> returns the fixed timed-out answer as an ordinary answer:
  \<open>ask_question\<close> reports it with no error, appends the exchange of the question and
  that answer to the history like any other, and has issued exactly one generation
  request.
\<close>

theorem ask_question_generation_timeout:
  assumes docs: "document_count (vector_store eng) \<noteq> 0"
      and qr: "query api space (vector_store eng) q (top_k_results (config eng)) f = (Inr hits, vs')"
      and ne: "hits \<noteq> []"
      and tmo: "\<forall>p. \<exists>msg. generate_api api (generate_posts eng) p = Raises (Exc RequestsTimeout msg)"
  shows "resp_answer (fst (ask_question api space rt eng q f m)) = timed_out_answer \<and>
         resp_error (fst (ask_question api space rt eng q f m)) = None \<and>
         conversation_history (snd (ask_question api space rt eng q f m)) =
           conversation_history (add_to_history rt eng q timed_out_answer) \<and>
         generate_posts (snd (ask_question api space rt eng q f m)) = Suc (generate_posts eng)"
proof -
  let ?eng1 = "after_query eng vs' hits"
  let ?cc = "if m \<and> include_conversation_context (config ?eng1)
             then build_conversation_context ?eng1 else []"
  have gp: "generate_posts ?eng1 = generate_posts eng" by (simp add: after_query_def)
  from tmo obtain msg where
    "generate_api api (generate_posts eng) (build_prompt q (build_context hits) ?cc)
       = Raises (Exc RequestsTimeout msg)" by blast
  then have ga: "generate_answer api ?eng1 q (build_context hits) ?cc
       = (Inr timed_out_answer, ?eng1\<lparr>generate_posts := Suc (generate_posts eng)\<rparr>)"
    by (simp add: generate_answer_def Let_def gp generate_handlers_def)
  have r: "ask_question api space rt eng q f m =
      (success_response rt timed_out_answer hits,
       add_to_history rt (?eng1\<lparr>generate_posts := Suc (generate_posts eng)\<rparr>) q timed_out_answer)"
    using docs qr ne ga by (simp add: ask_question_def answer_from_chunks_def Let_def)
  show ?thesis unfolding r
    by (simp add: success_response_def Let_def add_to_history_def after_query_def)
qed

theorem ask_question_generation_timeout_witness:
  "document_count (vector_store one_doc_engine) \<noteq> 0 \<and>
   (\<forall>p. \<exists>msg. generate_api timeout_api (generate_posts one_doc_engine) p
                 = Raises (Exc RequestsTimeout msg)) \<and>
   resp_answer (fst (ask_question timeout_api flat_space example_runtime one_doc_engine
                       (lit ''q'') None True)) = timed_out_answer \<and>
   generate_posts (snd (ask_question timeout_api flat_space example_runtime one_doc_engine
                          (lit ''q'') None True)) = Suc (generate_posts one_doc_engine)"
proof -
  have h1: "document_count (vector_store one_doc_engine) \<noteq> 0"
    by (simp add: one_doc_engine_def init_engine_def one_doc_store_def document_count_def)
  have h2: "query timeout_api flat_space (vector_store one_doc_engine) (lit ''q'')
              (top_k_results (config one_doc_engine)) None
            = (Inr [format_hit (lit ''x'',
                      \<lparr>meta_document = lit ''a'', meta_page = 1, chunk_index = 0\<rparr>, 0)],
               one_doc_store\<lparr>embedding_posts := 1\<rparr>)"
    by (simp add: one_doc_engine_def init_engine_def one_doc_store_def query_def
          get_embedding_def timeout_api_def collection_query_def collection_ids_def
          index_dimension_def flat_space_def default_config_def Let_def)
  have h3: "[format_hit (lit ''x'',
               \<lparr>meta_document = lit ''a'', meta_page = 1, chunk_index = 0\<rparr>, 0::real)] \<noteq> []"
    by simp
  have h4: "\<forall>p. \<exists>msg. generate_api timeout_api (generate_posts one_doc_engine) p
                     = Raises (Exc RequestsTimeout msg)"
    by (simp add: timeout_api_def)
  from ask_question_generation_timeout [OF h1 h2 h3 h4, of example_runtime True] h1 h4
  show ?thesis by blast
qed

text \<open>The claim as stated fails: with a store of one document and a generation endpoint
  that times out, the history is empty before the question and holds the timed-out
  exchange after it.\<close>

theorem ask_question_generation_timeout_counterexample:
  "(\<forall>k p. generate_api timeout_api k p = Raises (Exc RequestsTimeout [])) \<and>
   conversation_history one_doc_engine = [] \<and>
   conversation_history (snd (ask_question timeout_api flat_space example_runtime
                                 one_doc_engine (lit ''q'') None True))
     = [\<lparr>question = lit ''q'', answer = timed_out_answer,
         timestamp = lit ''2024-01-01T00:00:00''\<rparr>]"
  by (simp add: ask_question_def one_doc_engine_def init_engine_def one_doc_store_def
        document_count_def query_def get_embedding_def timeout_api_def collection_query_def
        collection_ids_def index_dimension_def flat_space_def default_config_def format_hit_def
        answer_from_chunks_def
        after_query_def generate_answer_def generate_handlers_def add_to_history_def
        example_runtime_def Let_def)


section \<open>Properties of the chunker\<close>

lemma length_strip_le: "length (strip s) \<le> length s"
proof -
  have "length (strip s) \<le> length (dropWhile isspace s)"
    unfolding strip_def by (metis length_dropWhile_le length_rev)
  also have "\<dots> \<le> length s" by (rule length_dropWhile_le)
  finally show ?thesis .
qed

lemma length_py_slice_from_le: "length (py_slice_from xs i) \<le> length xs"
  by (simp add: py_slice_from_def)

lemma length_get_overlap_text:
  assumes "0 < n"
  shows "int (length (get_overlap_text t n)) \<le> n"
proof (cases "int (length t) \<le> n")
  case True
  then show ?thesis by (simp add: get_overlap_text_def)
next
  case False
  have a: "int (length (py_slice_from t (- n))) \<le> n"
    using assms False by (simp add: py_slice_from_def)
  have "length (get_overlap_text t n) \<le> length (py_slice_from t (- n))"
    using False by (simp add: get_overlap_text_def Let_def length_py_slice_from_le)
  with a show ?thesis by linarith
qed

lemma flush_chunk_within:
  assumes "chunker_inv nd paras doc S ov st"
  shows "\<forall>c \<in> set (flush_chunk doc st). chunk_within nd paras doc S ov (S + max 0 ov + 2) c"
proof (cases "strip (current_chunk st) = []")
  case True
  with assms show ?thesis by (simp add: flush_chunk_def chunker_inv_def)
next
  case False
  then have ne: "current_chunk st \<noteq> []" by (auto simp: strip_def)
  with assms have "int (length (current_chunk st)) \<le> S + max 0 ov + 2"
    by (simp add: chunker_inv_def)
  moreover have "length (strip (current_chunk st)) \<le> length (current_chunk st)"
    by (rule length_strip_le)
  ultimately have "int (length (strip (current_chunk st))) \<le> S + max 0 ov + 2" by linarith
  with assms False show ?thesis
    by (auto simp: flush_chunk_def chunker_inv_def chunk_within_def)
qed

lemma paragraph_step_inv:
  assumes p: "p \<in> set paras" and inv: "chunker_inv nd paras doc S ov st"
  shows "chunker_inv nd paras doc S ov (paragraph_step nd doc S ov st p)"
proof -
  define pg where "pg = paragraph_page nd (current_page st) p"
  define para where "para = paragraph_body nd p"
  define st1 where "st1 = st\<lparr>current_page := pg\<rparr>"
  have inv1: "chunker_inv nd paras doc S ov st1"
    using inv by (simp add: st1_def chunker_inv_def)
  have step: "paragraph_step nd doc S ov st p =
     (if para = [] then st1
      else if int (length (current_chunk st1)) + int (length para) + 1 \<le> S then
        (if current_chunk st1 \<noteq> []
         then st1\<lparr>current_chunk := current_chunk st1 @ [10, 10] @ para\<rparr>
         else st1\<lparr>current_chunk := para, current_chunk_page := pg\<rparr>)
      else
        (let st' = st1\<lparr>chunk_list := flush_chunk doc st1\<rparr>
         in if int (length para) > S
            then st'\<lparr>chunk_list := chunk_list st' @ split_long_paragraph para pg doc S ov,
                     current_chunk := []\<rparr>
            else st'\<lparr>current_chunk :=
                       (if current_chunk st' \<noteq> [] \<and> ov > 0
                        then get_overlap_text (current_chunk st') ov @ [10, 10] @ para
                        else para),
                     current_chunk_page := pg\<rparr>))"
    by (simp add: paragraph_step_def Let_def pg_def para_def st1_def)
  have fl: "\<forall>c \<in> set (flush_chunk doc st1). chunk_within nd paras doc S ov (S + max 0 ov + 2) c"
    by (rule flush_chunk_within [OF inv1])
  show ?thesis
  proof (cases "para = []")
    case True
    with step inv1 show ?thesis by simp
  next
    case ne: False
    show ?thesis
    proof (cases "int (length (current_chunk st1)) + int (length para) + 1 \<le> S")
      case True
      with ne step inv1 show ?thesis by (auto simp: chunker_inv_def)
    next
      case nofit: False
      show ?thesis
      proof (cases "int (length para) > S")
        case True
        have "\<forall>c \<in> set (split_long_paragraph para pg doc S ov).
                chunk_within nd paras doc S ov (S + max 0 ov + 2) c"
          using True p unfolding chunk_within_def para_def by blast
        with ne nofit True step fl show ?thesis
          by (auto simp: chunker_inv_def Let_def)
      next
        case False
        have "int (length (if current_chunk st1 \<noteq> [] \<and> ov > 0
                        then get_overlap_text (current_chunk st1) ov @ [10, 10] @ para
                        else para)) \<le> S + max 0 ov + 2"
          using False length_get_overlap_text [of ov "current_chunk st1"] by auto
        with ne nofit False step fl show ?thesis
          by (auto simp: chunker_inv_def Let_def)
      qed
    qed
  qed
qed

lemma foldl_paragraph_step_inv:
  "set ps \<subseteq> set paras \<Longrightarrow> chunker_inv nd paras doc S ov st \<Longrightarrow>
   chunker_inv nd paras doc S ov (foldl (paragraph_step nd doc S ov) st ps)"
  by (induction ps arbitrary: st) (simp_all add: paragraph_step_inv)

text \<open>
  Claim C1, as the code has it. Every chunk of \<open>smart_chunk_text\<close> has at most
  \<open>S + max(O, 0) + 2\<close> characters, where \<open>S\<close> is the chunk size and \<open>O\<close> the
  overlap, except the chunks produced by sentence-splitting a paragraph of the text that
  is itself longer than \<open>S\<close>: a buffer started after a flush is the overlap tail of the
  flushed buffer (up to \<open>O\<close> characters), a blank line and the next paragraph (up to
  \<open>S\<close> characters), and it is not measured against \<open>S\<close> again.
\<close>

theorem smart_chunk_text_length_bound:
  "\<forall>c \<in> set (smart_chunk_text nd txt page_map doc S ov).
     int (length (chunk_text c)) \<le> S + max 0 ov + 2 \<or>
     (\<exists>p \<in> set (split_paragraphs txt). S < int (length (paragraph_body nd p)) \<and>
        (\<exists>pg. c \<in> set (split_long_paragraph (paragraph_body nd p) pg doc S ov)))"
proof -
  let ?init = "\<lparr>chunk_list = [], current_page = 1, current_chunk = [], current_chunk_page = 1\<rparr>"
  have "chunker_inv nd (split_paragraphs txt) doc S ov ?init"
    by (simp add: chunker_inv_def)
  then have "chunker_inv nd (split_paragraphs txt) doc S ov
               (foldl (paragraph_step nd doc S ov) ?init (split_paragraphs txt))"
    by (rule foldl_paragraph_step_inv [OF subset_refl])
  from flush_chunk_within [OF this] show ?thesis
    by (auto simp: smart_chunk_text_def chunk_within_def)
qed


lemma overlap_example_chunks:
  "smart_chunk_text ascii_only overlap_text_example [] (lit ''d'') 10 5 =
     [\<lparr>chunk_text = lit ''aaaaaaaaa'', chunk_page = 1, chunk_document = lit ''d''\<rparr>,
      \<lparr>chunk_text = lit ''aaaaa'' @ [10, 10] @ lit ''bbbbbbbbbb'', chunk_page = 1,
        chunk_document = lit ''d''\<rparr>]"
  by (simp add: overlap_text_example_def smart_chunk_text_def lit_def split_paragraphs_def
        strip_def isspace_def paragraph_step_def paragraph_page_def paragraph_body_def
        match_page_marker_def flush_chunk_def get_overlap_text_def py_slice_from_def Let_def)

lemma overlap_example_paragraphs:
  "map (paragraph_body ascii_only) (split_paragraphs overlap_text_example) =
     [lit ''aaaaaaaaa'', lit ''bbbbbbbbbb'']"
  by (simp add: overlap_text_example_def lit_def split_paragraphs_def paragraph_body_def
        match_page_marker_def strip_def isspace_def)

theorem smart_chunk_text_length_bound_witness:
  "\<lparr>chunk_text = lit ''aaaaa'' @ [10, 10] @ lit ''bbbbbbbbbb'', chunk_page = 1,
     chunk_document = lit ''d''\<rparr>
     \<in> set (smart_chunk_text ascii_only overlap_text_example [] (lit ''d'') 10 5) \<and>
   int (length (lit ''aaaaa'' @ [10, 10] @ lit ''bbbbbbbbbb'')) \<le> 10 + max 0 5 + 2"
proof -
  let ?c = "\<lparr>chunk_text = lit ''aaaaa'' @ [10, 10] @ lit ''bbbbbbbbbb'', chunk_page = 1,
             chunk_document = lit ''d''\<rparr>"
  have m: "?c \<in> set (smart_chunk_text ascii_only overlap_text_example [] (lit ''d'') 10 5)"
    by (simp add: overlap_example_chunks)
  have "\<forall>b \<in> set (map (paragraph_body ascii_only) (split_paragraphs overlap_text_example)).
          \<not> 10 < int (length b)"
    unfolding overlap_example_paragraphs by (simp add: lit_def)
  then have p: "\<not> (\<exists>p \<in> set (split_paragraphs overlap_text_example).
            10 < int (length (paragraph_body ascii_only p)) \<and>
            (\<exists>pg. ?c \<in> set (split_long_paragraph (paragraph_body ascii_only p) pg
                               (lit ''d'') 10 5)))"
    by auto
  from bspec [OF smart_chunk_text_length_bound [of ascii_only overlap_text_example "[]" "lit ''d''" 10 5] m] p
  have "int (length (chunk_text ?c)) \<le> 10 + max 0 5 + 2" by blast
  with m show ?thesis by simp
qed

text \<open>The bound \<open>S\<close> of the claim as stated fails: with size 10 and overlap 5, the
  second chunk of the example is the five-character tail of the first paragraph, a blank
  line and the second paragraph, 17 characters, and no paragraph of the text is longer
  than 10.\<close>

theorem smart_chunk_text_length_counterexample:
  "(5::int) < 10 \<and>
   \<not> (\<forall>c \<in> set (smart_chunk_text ascii_only overlap_text_example [] (lit ''d'') 10 5).
         int (length (chunk_text c)) \<le> 10 \<or>
         (\<exists>p \<in> set (split_paragraphs overlap_text_example).
            10 < int (length (paragraph_body ascii_only p)) \<and>
            (\<exists>pg. c \<in> set (split_long_paragraph (paragraph_body ascii_only p) pg
                               (lit ''d'') 10 5))))"
proof -
  let ?c = "\<lparr>chunk_text = lit ''aaaaa'' @ [10, 10] @ lit ''bbbbbbbbbb'', chunk_page = 1,
             chunk_document = lit ''d''\<rparr>"
  have m: "?c \<in> set (smart_chunk_text ascii_only overlap_text_example [] (lit ''d'') 10 5)"
    by (simp add: overlap_example_chunks)
  have l: "\<not> int (length (chunk_text ?c)) \<le> 10" by (simp add: lit_def)
  have "\<forall>b \<in> set (map (paragraph_body ascii_only) (split_paragraphs overlap_text_example)).
          \<not> 10 < int (length b)"
    unfolding overlap_example_paragraphs by (simp add: lit_def)
  then have p: "\<not> (\<exists>p \<in> set (split_paragraphs overlap_text_example).
            10 < int (length (paragraph_body ascii_only p)) \<and>
            (\<exists>pg. ?c \<in> set (split_long_paragraph (paragraph_body ascii_only p) pg
                               (lit ''d'') 10 5)))"
    by auto
  from m l p have n: "\<not> (\<forall>c \<in> set (smart_chunk_text ascii_only overlap_text_example [] (lit ''d'') 10 5).
         int (length (chunk_text c)) \<le> 10 \<or>
         (\<exists>p \<in> set (split_paragraphs overlap_text_example).
            10 < int (length (paragraph_body ascii_only p)) \<and>
            (\<exists>pg. c \<in> set (split_long_paragraph (paragraph_body ascii_only p) pg
                               (lit ''d'') 10 5))))"
    by blast
  show ?thesis by (rule conjI [OF _ n]) simp
qed


section \<open>Properties of the vector store\<close>

subsection \<open>Embedding requests leave the registry and the index alone\<close>

lemma get_embedding_frame:
  "documents (snd (get_embedding api vs t)) = documents vs \<and>
   collection (snd (get_embedding api vs t)) = collection vs \<and>
   embedding_posts (snd (get_embedding api vs t)) = Suc (embedding_posts vs)"
  by (simp add: get_embedding_def Let_def split: http_result.splits)

lemma get_embeddings_batch_frame:
  "documents (snd (get_embeddings_batch api vs ts)) = documents vs \<and>
   collection (snd (get_embeddings_batch api vs ts)) = collection vs"
proof (induction ts arbitrary: vs)
  case Nil
  show ?case by simp
next
  case (Cons t ts)
  obtain r vs' where g: "get_embedding api vs t = (r, vs')" by (cases "get_embedding api vs t")
  with get_embedding_frame [of api vs t]
  have f: "documents vs' = documents vs" "collection vs' = collection vs" by simp_all
  show ?case
  proof (cases r)
    case (Inl e)
    with g f show ?thesis by simp
  next
    case (Inr v)
    obtain r2 vs2 where b: "get_embeddings_batch api vs' ts = (r2, vs2)"
      by (cases "get_embeddings_batch api vs' ts")
    with Cons.IH [of vs'] f have "documents vs2 = documents vs" "collection vs2 = collection vs"
      by simp_all
    with g Inr b show ?thesis by (cases r2) simp_all
  qed
qed

lemma get_embeddings_batch_length:
  "get_embeddings_batch api vs ts = (Inr embs, vs') \<Longrightarrow> length embs = length ts"
proof (induction ts arbitrary: vs embs vs')
  case Nil
  then show ?case by simp
next
  case (Cons t ts)
  then show ?case
    by (auto split: prod.splits sum.splits)
qed

lemma length_str_nat: "0 < length (str_nat n)"
  by (subst str_nat.simps) simp

lemma str_nat_inj: "str_nat n = str_nat m \<Longrightarrow> n = m"
proof (induction n arbitrary: m rule: str_nat.induct)
  case (1 n)
  show ?case
  proof (cases "n < 10")
    case True
    show ?thesis
    proof (cases "m < 10")
      case m: True
      from "1.prems" True m show ?thesis
        by (subst (asm) str_nat.simps, subst (asm) (2) str_nat.simps) simp
    next
      case m: False
      from "1.prems" True m have "[48 + n] = str_nat (m div 10) @ [48 + m mod 10]"
        by (subst (asm) str_nat.simps, subst (asm) (2) str_nat.simps) simp
      then have "str_nat (m div 10) = []" by (metis append_is_Nil_conv butlast.simps(2) butlast_snoc)
      with length_str_nat [of "m div 10"] show ?thesis by simp
    qed
  next
    case False
    show ?thesis
    proof (cases "m < 10")
      case m: True
      from "1.prems" False m have "str_nat (n div 10) @ [48 + n mod 10] = [48 + m]"
        by (subst (asm) str_nat.simps, subst (asm) (2) str_nat.simps) simp
      then have "str_nat (n div 10) = []" by (metis append_is_Nil_conv butlast.simps(2) butlast_snoc)
      with length_str_nat [of "n div 10"] show ?thesis by simp
    next
      case m: False
      from "1.prems" False m
      have "str_nat (n div 10) @ [48 + n mod 10] = str_nat (m div 10) @ [48 + m mod 10]"
        by (subst (asm) str_nat.simps, subst (asm) (2) str_nat.simps) simp
      then have "str_nat (n div 10) = str_nat (m div 10)" and md: "n mod 10 = m mod 10"
        by simp_all
      with "1.IH" [OF False] have "n div 10 = m div 10" by blast
      with md show ?thesis by (metis div_mult_mod_eq)
    qed
  qed
qed

lemma str_nat_digits: "c \<in> set (str_nat n) \<Longrightarrow> 48 \<le> c \<and> c \<le> 57"
proof (induction n arbitrary: c rule: str_nat.induct)
  case (1 n)
  show ?case
  proof (cases "n < 10")
    case True
    with "1.prems" show ?thesis by (subst (asm) str_nat.simps) simp
  next
    case False
    with "1.prems" have "c \<in> set (str_nat (n div 10)) \<or> c = 48 + n mod 10"
      by (subst (asm) str_nat.simps) auto
    then show ?thesis
    proof
      assume "c \<in> set (str_nat (n div 10))"
      with "1.IH" [OF False] show ?thesis by blast
    next
      assume "c = 48 + n mod 10"
      moreover have "n mod 10 < 10" by simp
      ultimately show ?thesis by linarith
    qed
  qed
qed

lemma split_at_last_separator:
  "a \<notin> set ds \<Longrightarrow> a \<notin> set es \<Longrightarrow> xs @ a # ds = ys @ a # es \<Longrightarrow> xs = ys \<and> ds = es"
proof (induction xs arbitrary: ys)
  case Nil
  then show ?case by (cases ys) auto
next
  case (Cons x xs)
  then show ?case by (cases ys) auto
qed

lemma doc_chunk_id_inj:
  assumes "doc_chunk_id n i = doc_chunk_id m j"
  shows "n = m \<and> i = j"
proof -
  have a: "95 \<notin> set (str_nat i)" "95 \<notin> set (str_nat j)"
    using str_nat_digits [of 95 i] str_nat_digits [of 95 j] by auto
  from assms have "n @ 95 # str_nat i = m @ 95 # str_nat j"
    by (simp add: doc_chunk_id_def lit_def)
  from split_at_last_separator [OF a this] show ?thesis
    by (auto dest: str_nat_inj)
qed

lemma distinct_doc_chunk_ids: "distinct (map (doc_chunk_id name) [0..<n])"
  by (simp add: distinct_map inj_on_def) (blast dest: doc_chunk_id_inj)

lemma update_fresh: "k \<notin> set (map fst al) \<Longrightarrow> AList.update k v al = al @ [(k, v)]"
  by (induction al) auto

lemma delete_fresh: "k \<notin> set (map fst al) \<Longrightarrow> AList.delete k al = al"
  by (induction al) auto

subsection \<open>What \<open>add_document\<close> and \<open>remove_document\<close> do to the state\<close>

lemma registered_iff: "name \<in> set (map fst docs) \<longleftrightarrow> map_of docs name \<noteq> None"
  by (simp add: map_of_eq_None_iff)

lemma add_document_unfold:
  assumes "chunks \<noteq> []"
  shows "add_document api vs name chunks =
     (let vs1 = snd (remove_document vs name) in
      case get_embeddings_batch api vs1 (map chunk_text chunks) of
        (Inl e, vs2) \<Rightarrow> (Inl e, vs2)
      | (Inr embs, vs2) \<Rightarrow>
          (Inr (length chunks),
           vs2\<lparr>collection := collection vs2 @
                   filter (\<lambda>(i, r). i \<notin> set (collection_ids (collection vs2)))
                     (zip (new_ids name chunks) (new_records embs chunks)),
               documents := AList.update name
                  \<lparr>chunk_count = length chunks, chunk_ids = new_ids name chunks\<rparr>
                  (documents vs2)\<rparr>))"
proof -
  have r: "(if name \<in> set (map fst (documents vs)) then snd (remove_document vs name) else vs)
           = snd (remove_document vs name)"
    by (auto simp: remove_document_def registered_iff simp del: set_map split: option.splits)
  show ?thesis
    using assms distinct_doc_chunk_ids [of name "length chunks"]
    unfolding add_document_def r
    by (simp add: Let_def collection_add_def new_ids_def new_records_def
             split: prod.splits sum.splits)
qed

lemma add_document_failure_state:
  assumes "add_document api vs name chunks = (Inl e, vs')"
  shows "documents vs' = documents (snd (remove_document vs name)) \<and>
         collection vs' = collection (snd (remove_document vs name))"
proof (cases "chunks = []")
  case True
  with assms show ?thesis by (simp add: add_document_def)
next
  case False
  obtain r vs2 where b: "get_embeddings_batch api (snd (remove_document vs name)) (map chunk_text chunks) = (r, vs2)"
    by (cases "get_embeddings_batch api (snd (remove_document vs name)) (map chunk_text chunks)")
  from get_embeddings_batch_frame [of api "snd (remove_document vs name)" "map chunk_text chunks"] b
  have f: "documents vs2 = documents (snd (remove_document vs name))"
          "collection vs2 = collection (snd (remove_document vs name))" by simp_all
  from assms False b have "vs' = vs2"
    by (cases r) (simp_all add: add_document_unfold Let_def)
  with f show ?thesis by simp
qed

lemma add_document_success_state:
  assumes ne: "chunks \<noteq> []"
      and ok: "add_document api vs name chunks = (Inr n, vs')"
  shows "\<exists>embs. length embs = length chunks \<and> n = length chunks \<and>
     collection vs' = collection (snd (remove_document vs name)) @
        filter (\<lambda>(i, r). i \<notin> set (collection_ids (collection (snd (remove_document vs name)))))
          (zip (new_ids name chunks) (new_records embs chunks)) \<and>
     documents vs' = AList.update name
        \<lparr>chunk_count = length chunks, chunk_ids = new_ids name chunks\<rparr>
        (documents (snd (remove_document vs name)))"
proof -
  let ?vs1 = "snd (remove_document vs name)"
  obtain r vs2 where b: "get_embeddings_batch api ?vs1 (map chunk_text chunks) = (r, vs2)"
    by (cases "get_embeddings_batch api ?vs1 (map chunk_text chunks)")
  from get_embeddings_batch_frame [of api ?vs1 "map chunk_text chunks"] b
  have f: "documents vs2 = documents ?vs1" "collection vs2 = collection ?vs1" by simp_all
  from ok ne b obtain embs where r: "r = Inr embs"
    by (cases r) (simp_all add: add_document_unfold Let_def)
  from get_embeddings_batch_length b r have l: "length embs = length chunks" by fastforce
  from ok ne b r f have "n = length chunks"
    and "collection vs' = collection ?vs1 @
        filter (\<lambda>(i, r). i \<notin> set (collection_ids (collection ?vs1)))
          (zip (new_ids name chunks) (new_records embs chunks))"
    and "documents vs' = AList.update name
        \<lparr>chunk_count = length chunks, chunk_ids = new_ids name chunks\<rparr> (documents ?vs1)"
    by (auto simp: add_document_unfold Let_def)
  with l show ?thesis by blast
qed

lemma length_new_records:
  "length embs = length chunks \<Longrightarrow> length (new_records embs chunks) = length chunks"
  by (simp add: new_records_def)

lemma filter_fresh_zip:
  assumes "set ids \<inter> set (collection_ids col) = {}"
  shows "filter (\<lambda>(i, r). i \<notin> set (collection_ids col)) (zip ids rs) = zip ids rs"
proof -
  have "\<forall>x \<in> set (zip ids rs). (\<lambda>(i, r). i \<notin> set (collection_ids col)) x"
    using assms by (auto dest: set_zip_leftD)
  then show ?thesis by (simp only: filter_True)
qed

lemma collection_delete_append_new:
  assumes "set ids \<inter> set (collection_ids col) = {}"
  shows "collection_delete (col @ zip ids rs) ids = col"
proof -
  have a: "filter (\<lambda>(i, r). i \<notin> set ids) col = col"
    using assms by (force simp: collection_ids_def filter_id_conv)
  have b: "filter (\<lambda>(i, r). i \<notin> set ids) (zip ids rs) = []"
    by (auto simp: filter_empty_conv dest: set_zip_leftD)
  show ?thesis by (simp add: collection_delete_def a b)
qed

lemma add_then_remove_restores_fresh:
  assumes ne: "chunks \<noteq> []"
      and unreg: "document_name \<notin> set (get_documents vs)"
      and fresh: "set (map (doc_chunk_id document_name) [0..<length chunks])
                    \<inter> set (collection_ids (collection vs)) = {}"
      and ok: "add_document api vs document_name chunks = (Inr n, vs1)"
  shows "fst (remove_document vs1 document_name) = True \<and>
         documents (snd (remove_document vs1 document_name)) = documents vs \<and>
         collection (snd (remove_document vs1 document_name)) = collection vs \<and>
         document_count (snd (remove_document vs1 document_name)) = document_count vs \<and>
         total_chunk_count (snd (remove_document vs1 document_name)) = total_chunk_count vs"
proof -
  from unreg have u: "document_name \<notin> set (map fst (documents vs))"
    by (simp add: get_documents_def)
  then have none: "map_of (documents vs) document_name = None"
    by (simp add: map_of_eq_None_iff)
  then have rm: "snd (remove_document vs document_name) = vs"
    by (simp add: remove_document_def)
  from add_document_success_state [OF ne ok] rm fresh
  obtain embs where l: "length embs = length chunks"
    and c: "collection vs1 = collection vs @
              zip (new_ids document_name chunks) (new_records embs chunks)"
    and d: "documents vs1 = AList.update document_name
              \<lparr>chunk_count = length chunks, chunk_ids = new_ids document_name chunks\<rparr>
              (documents vs)"
    by (auto simp: filter_fresh_zip new_ids_def)
  from d u have d': "documents vs1 = documents vs @ [(document_name,
      \<lparr>chunk_count = length chunks, chunk_ids = new_ids document_name chunks\<rparr>)]"
    by (simp add: update_fresh del: set_map)
  with none have m: "map_of (documents vs1) document_name =
      Some \<lparr>chunk_count = length chunks, chunk_ids = new_ids document_name chunks\<rparr>"
    by (simp add: map_add_def)
  have dd: "AList.delete document_name (documents vs1) = documents vs"
    using delete_fresh [OF u] by (simp add: d' AList.delete_eq)
  have cc: "collection_delete (collection vs1) (new_ids document_name chunks) = collection vs"
    unfolding c using fresh by (intro collection_delete_append_new) (simp add: new_ids_def)
  show ?thesis
    by (simp add: remove_document_def m dd cc document_count_def total_chunk_count_def)
qed

subsection \<open>The registry invariant\<close>

lemma registry_ok_empty: "registry_ok empty_store"
  by (simp add: registry_ok_def empty_store_def collection_ids_def)

lemma tags_ok_empty: "tags_ok empty_store"
  by (simp add: tags_ok_def empty_store_def)

lemma registry_ok_cong:
  "documents a = documents b \<Longrightarrow> collection a = collection b \<Longrightarrow> registry_ok a = registry_ok b"
  by (simp add: registry_ok_def)

lemma tags_ok_cong:
  "documents a = documents b \<Longrightarrow> collection a = collection b \<Longrightarrow> tags_ok a = tags_ok b"
  by (simp add: tags_ok_def)

lemma remove_document_state:
  "documents (snd (remove_document vs n)) = AList.delete n (documents vs) \<and>
   collection (snd (remove_document vs n)) =
     (case map_of (documents vs) n of None \<Rightarrow> collection vs
      | Some info \<Rightarrow> collection_delete (collection vs) (chunk_ids info))"
proof (cases "map_of (documents vs) n")
  case None
  then have "n \<notin> set (map fst (documents vs))" by (simp add: map_of_eq_None_iff)
  from delete_fresh [OF this] None show ?thesis by (simp add: remove_document_def)
next
  case (Some info)
  then show ?thesis by (simp add: remove_document_def)
qed

lemma set_delete: "set (AList.delete k al) = {p \<in> set al. fst p \<noteq> k}"
  by (auto simp: AList.delete_eq)

lemma registry_ok_remove:
  assumes "registry_ok vs"
  shows "registry_ok (snd (remove_document vs n))"
proof (cases "map_of (documents vs) n")
  case None
  with assms show ?thesis by (simp add: remove_document_def)
next
  case (Some info)
  let ?vs' = "snd (remove_document vs n)"
  have d: "documents ?vs' = AList.delete n (documents vs)"
    and c: "collection ?vs' = collection_delete (collection vs) (chunk_ids info)"
    using remove_document_state [of vs n] Some by simp_all
  from assms have dist: "distinct (map fst (documents vs))" by (simp add: registry_ok_def)
  have 1: "distinct (map fst (documents ?vs'))"
    unfolding d using dist by (rule distinct_delete)
  have 2: "\<forall>(m, i) \<in> set (documents ?vs'). chunk_ids i = map (doc_chunk_id m) [0..<chunk_count i]"
    using assms unfolding d set_delete registry_ok_def by auto
  have 3: "\<forall>i \<in> set (collection_ids (collection ?vs')).
             \<exists>(m, inf) \<in> set (documents ?vs'). i \<in> set (chunk_ids inf)"
  proof
    fix i assume "i \<in> set (collection_ids (collection ?vs'))"
    then have i: "i \<in> set (collection_ids (collection vs))" "i \<notin> set (chunk_ids info)"
      by (auto simp: c collection_delete_def collection_ids_def)
    with assms obtain m inf where m: "(m, inf) \<in> set (documents vs)" "i \<in> set (chunk_ids inf)"
      unfolding registry_ok_def by blast
    from m(1) dist have "map_of (documents vs) m = Some inf" by simp
    with Some i(2) m(2) have "m \<noteq> n" by auto
    with m show "\<exists>(m, inf) \<in> set (documents ?vs'). i \<in> set (chunk_ids inf)"
      unfolding d set_delete by auto
  qed
  from 1 2 3 show ?thesis unfolding registry_ok_def by blast
qed

lemma tags_ok_remove:
  assumes "tags_ok vs"
  shows "tags_ok (snd (remove_document vs n))"
proof -
  have "set (documents (snd (remove_document vs n))) \<subseteq> set (documents vs)"
    using remove_document_state [of vs n] by (auto simp: set_delete)
  moreover have "set (collection (snd (remove_document vs n))) \<subseteq> set (collection vs)"
    using remove_document_state [of vs n]
    by (auto simp: collection_delete_def split: option.splits)
  ultimately show ?thesis using assms unfolding tags_ok_def by blast
qed

lemma unregistered_after_remove:
  "n \<notin> set (map fst (documents (snd (remove_document vs n))))"
  using remove_document_state [of vs n] by (auto simp: set_delete)

lemma fresh_ids_unregistered:
  assumes ok: "registry_ok vs" and un: "name \<notin> set (map fst (documents vs))"
  shows "set (new_ids name cs) \<inter> set (collection_ids (collection vs)) = {}"
proof (rule ccontr)
  assume "set (new_ids name cs) \<inter> set (collection_ids (collection vs)) \<noteq> {}"
  then obtain i where i: "i \<in> set (new_ids name cs)" "i \<in> set (collection_ids (collection vs))"
    by blast
  from i(1) obtain j where j: "i = doc_chunk_id name j" by (auto simp: new_ids_def)
  from ok i(2) obtain m inf where m: "(m, inf) \<in> set (documents vs)" "i \<in> set (chunk_ids inf)"
    unfolding registry_ok_def by blast
  from ok m(1) have "chunk_ids inf = map (doc_chunk_id m) [0..<chunk_count inf]"
    unfolding registry_ok_def by blast
  with m(2) obtain k where "i = doc_chunk_id m k" by auto
  with j have "m = name" by (auto dest: doc_chunk_id_inj)
  with m(1) un show False by force
qed

lemma add_document_success_registry:
  assumes ok: "registry_ok vs" and ne: "cs \<noteq> []"
      and ad: "add_document api vs name cs = (Inr n, vs')"
  shows "\<exists>embs. length embs = length cs \<and> n = length cs \<and>
     collection vs' = collection (snd (remove_document vs name)) @
                        zip (new_ids name cs) (new_records embs cs) \<and>
     documents vs' = AList.delete name (documents vs) @
        [(name, \<lparr>chunk_count = length cs, chunk_ids = new_ids name cs\<rparr>)]"
proof -
  let ?vs1 = "snd (remove_document vs name)"
  have ok1: "registry_ok ?vs1" using ok by (rule registry_ok_remove)
  have un: "name \<notin> set (map fst (documents ?vs1))" by (rule unregistered_after_remove)
  have fr: "set (new_ids name cs) \<inter> set (collection_ids (collection ?vs1)) = {}"
    using ok1 un by (rule fresh_ids_unregistered)
  from add_document_success_state [OF ne ad] obtain embs where
    e: "length embs = length cs" "n = length cs"
       "collection vs' = collection ?vs1 @
          filter (\<lambda>(i, r). i \<notin> set (collection_ids (collection ?vs1)))
            (zip (new_ids name cs) (new_records embs cs))"
       "documents vs' = AList.update name
          \<lparr>chunk_count = length cs, chunk_ids = new_ids name cs\<rparr> (documents ?vs1)"
    by blast
  have "documents vs' = documents ?vs1 @
          [(name, \<lparr>chunk_count = length cs, chunk_ids = new_ids name cs\<rparr>)]"
    unfolding e(4) using un by (rule update_fresh)
  with e(1,2) e(3) [unfolded filter_fresh_zip [OF fr]] remove_document_state [of vs name]
  show ?thesis by auto
qed

lemma add_document_failure_frame:
  assumes "add_document api vs name cs = (Inl e, vs')"
  shows "documents vs' = documents (snd (remove_document vs name)) \<and>
         collection vs' = collection (snd (remove_document vs name))"
  using add_document_failure_state [OF assms] .

lemma registry_ok_add:
  assumes ok: "registry_ok vs"
  shows "registry_ok (snd (add_document api vs name cs))"
proof (cases "cs = []")
  case True
  with ok show ?thesis by (simp add: add_document_def)
next
  case ne: False
  let ?vs1 = "snd (remove_document vs name)"
  have ok1: "registry_ok ?vs1" using ok by (rule registry_ok_remove)
  obtain r vs' where ad: "add_document api vs name cs = (r, vs')"
    by (cases "add_document api vs name cs")
  show ?thesis
  proof (cases r)
    case (Inl e)
    with ad add_document_failure_frame [of api vs name cs e vs'] ok1
    show ?thesis using registry_ok_cong [of vs' ?vs1] by simp
  next
    case (Inr n)
    with add_document_success_registry [OF ok ne] ad obtain embs where
      l: "length embs = length cs"
      and c: "collection vs' = collection ?vs1 @ zip (new_ids name cs) (new_records embs cs)"
      and d: "documents vs' = AList.delete name (documents vs) @
                [(name, \<lparr>chunk_count = length cs, chunk_ids = new_ids name cs\<rparr>)]"
      by blast
    have d1: "documents ?vs1 = AList.delete name (documents vs)"
      using remove_document_state [of vs name] by simp
    have un: "name \<notin> set (map fst (documents ?vs1))" by (rule unregistered_after_remove)
    have 1: "distinct (map fst (documents vs'))"
      using ok1 un unfolding d d1 [symmetric] registry_ok_def by simp
    have 2: "\<forall>(m, i) \<in> set (documents vs').
               chunk_ids i = map (doc_chunk_id m) [0..<chunk_count i]"
      using ok1 unfolding d d1 [symmetric] registry_ok_def by (auto simp: new_ids_def)
    have lz: "length (new_ids name cs) = length (new_records embs cs)"
      using l by (simp add: new_ids_def length_new_records)
    have 3: "\<forall>i \<in> set (collection_ids (collection vs')).
               \<exists>(m, inf) \<in> set (documents vs'). i \<in> set (chunk_ids inf)"
    proof
      fix i assume "i \<in> set (collection_ids (collection vs'))"
      then have "i \<in> set (collection_ids (collection ?vs1)) \<or> i \<in> set (new_ids name cs)"
        unfolding c collection_ids_def using lz by (auto dest: set_zip_leftD)
      then show "\<exists>(m, inf) \<in> set (documents vs'). i \<in> set (chunk_ids inf)"
      proof
        assume "i \<in> set (collection_ids (collection ?vs1))"
        with ok1 show ?thesis unfolding d d1 [symmetric] registry_ok_def by fastforce
      next
        assume "i \<in> set (new_ids name cs)"
        then show ?thesis unfolding d by auto
      qed
    qed
    from 1 2 3 ad show ?thesis unfolding registry_ok_def by simp
  qed
qed

lemma new_records_tagged:
  assumes "(i, r) \<in> set (zip (new_ids name cs) (new_records embs cs))"
  shows "\<exists>c \<in> set cs. meta_document (rec_metadata r) = chunk_document c"
proof -
  from assms have "r \<in> set (new_records embs cs)" by (rule set_zip_rightD)
  then obtain e d m where r: "r = \<lparr>rec_embedding = e, rec_document = d, rec_metadata = m\<rparr>"
    and m: "m \<in> set (map (\<lambda>(i, c). \<lparr>meta_document = chunk_document c, meta_page = chunk_page c,
                           chunk_index = i\<rparr>) (enumerate 0 cs))"
    unfolding new_records_def by (auto dest!: set_zip_rightD)
  from m obtain k c where "(k, c) \<in> set (enumerate 0 cs)" "meta_document m = chunk_document c"
    by auto
  moreover then have "c \<in> set cs" by (auto simp: in_set_enumerate_eq)
  ultimately show ?thesis using r by auto
qed

lemma tags_ok_add:
  assumes ok: "registry_ok vs" and tg: "tags_ok vs"
      and cs: "\<forall>c \<in> set cs. chunk_document c = name"
  shows "tags_ok (snd (add_document api vs name cs))"
proof (cases "cs = []")
  case True
  with tg show ?thesis by (simp add: add_document_def)
next
  case ne: False
  let ?vs1 = "snd (remove_document vs name)"
  have ok1: "registry_ok ?vs1" using ok by (rule registry_ok_remove)
  have tg1: "tags_ok ?vs1" using tg by (rule tags_ok_remove)
  obtain r vs' where ad: "add_document api vs name cs = (r, vs')"
    by (cases "add_document api vs name cs")
  show ?thesis
  proof (cases r)
    case (Inl e)
    with ad add_document_failure_frame [of api vs name cs e vs'] tg1
    show ?thesis using tags_ok_cong [of vs' ?vs1] by simp
  next
    case (Inr n)
    with add_document_success_registry [OF ok ne] ad obtain embs where
      l: "length embs = length cs"
      and c: "collection vs' = collection ?vs1 @ zip (new_ids name cs) (new_records embs cs)"
      and d: "documents vs' = AList.delete name (documents vs) @
                [(name, \<lparr>chunk_count = length cs, chunk_ids = new_ids name cs\<rparr>)]"
      by blast
    have d1: "documents ?vs1 = AList.delete name (documents vs)"
      using remove_document_state [of vs name] by simp
    have un: "name \<notin> set (map fst (documents ?vs1))" by (rule unregistered_after_remove)
    have fr: "set (new_ids name cs) \<inter> set (collection_ids (collection ?vs1)) = {}"
      using ok1 un by (rule fresh_ids_unregistered)
    have "\<forall>(m, inf) \<in> set (documents vs'). \<forall>(i, r) \<in> set (collection vs').
            i \<in> set (chunk_ids inf) \<longrightarrow> meta_document (rec_metadata r) = m"
    proof (clarify)
      fix m inf i r
      assume mi: "(m, inf) \<in> set (documents vs')" and ir: "(i, r) \<in> set (collection vs')"
        and ii: "i \<in> set (chunk_ids inf)"
      from mi consider (old) "(m, inf) \<in> set (documents ?vs1)"
        | (new) "m = name" "inf = \<lparr>chunk_count = length cs, chunk_ids = new_ids name cs\<rparr>"
        unfolding d d1 [symmetric] by auto
      then show "meta_document (rec_metadata r) = m"
      proof cases
        case old
        from ir consider (a) "(i, r) \<in> set (collection ?vs1)"
          | (b) "(i, r) \<in> set (zip (new_ids name cs) (new_records embs cs))"
          unfolding c by auto
        then show ?thesis
        proof cases
          case a
          with tg1 old ii show ?thesis unfolding tags_ok_def by blast
        next
          case b
          then have "i \<in> set (new_ids name cs)" by (rule set_zip_leftD)
          then obtain j where j: "i = doc_chunk_id name j" by (auto simp: new_ids_def)
          from ok1 old have "chunk_ids inf = map (doc_chunk_id m) [0..<chunk_count inf]"
            unfolding registry_ok_def by blast
          with ii obtain k where "i = doc_chunk_id m k" by auto
          with j have "m = name" by (auto dest: doc_chunk_id_inj)
          with old un show ?thesis by force
        qed
      next
        case new
        from ir consider (a) "(i, r) \<in> set (collection ?vs1)"
          | (b) "(i, r) \<in> set (zip (new_ids name cs) (new_records embs cs))"
          unfolding c by auto
        then show ?thesis
        proof cases
          case a
          then have "i \<in> set (collection_ids (collection ?vs1))"
            by (force simp: collection_ids_def)
          with fr ii new show ?thesis by auto
        next
          case b
          from new_records_tagged [OF b] cs new show ?thesis by auto
        qed
      qed
    qed
    with ad show ?thesis unfolding tags_ok_def by simp
  qed
qed

lemma registry_ok_clear: "registry_ok (clear vs)"
  by (simp add: registry_ok_def clear_def collection_ids_def)

lemma tags_ok_clear: "tags_ok (clear vs)"
  by (simp add: tags_ok_def clear_def)

subsection \<open>Example stores\<close>

lemma one_doc_store_reachable:
  "add_document working_api empty_store (lit ''a'') [example_chunk]
     = (Inr 1, one_doc_store\<lparr>embedding_posts := 1\<rparr>)"
  by (simp add: add_document_def empty_store_def one_doc_store_def working_api_def
        get_embedding_def collection_add_def collection_ids_def doc_chunk_id_def lit_def
        str_nat.simps enumerate_eq_zip example_chunk_def)

lemma two_doc_store_reachable:
  "add_document working_api one_doc_store (lit ''b'')
       [\<lparr>chunk_text = lit ''z'', chunk_page = 1, chunk_document = lit ''b''\<rparr>]
     = (Inr 1, two_doc_store\<lparr>embedding_posts := 1\<rparr>)"
  by (simp add: add_document_def two_doc_store_def one_doc_store_def working_api_def
        get_embedding_def collection_add_def collection_ids_def doc_chunk_id_def lit_def
        str_nat.simps enumerate_eq_zip)

lemma registry_ok_one_doc_store: "registry_ok one_doc_store"
  by (simp add: registry_ok_def one_doc_store_def collection_ids_def doc_chunk_id_def lit_def
        str_nat.simps)

lemma tags_ok_two_doc_store: "tags_ok two_doc_store"
  by (simp add: tags_ok_def two_doc_store_def lit_def)

subsection \<open>A failed upload\<close>

text \<open>
  Claim C3, as the code has it. The previous version of the document is removed before
  the embeddings are requested, and nothing is rolled back. When \<open>add_document\<close> fails,
  no new chunk or embedding is stored and every other document is as it was: the registry
  and the index are those from before the call with the previous version of this
  document, if there was one, removed. If the name was not registered, they are exactly
  as before.
\<close>

theorem add_document_failure_removes_old_version:
  assumes "add_document api vs document_name cs = (Inl e, vs')"
  shows "documents vs' = AList.delete document_name (documents vs) \<and>
         collection vs' =
           (case map_of (documents vs) document_name of
              None \<Rightarrow> collection vs
            | Some old \<Rightarrow> collection_delete (collection vs) (chunk_ids old)) \<and>
         (document_name \<notin> set (get_documents vs) \<longrightarrow>
            documents vs' = documents vs \<and> collection vs' = collection vs)"
proof -
  from add_document_failure_state [OF assms] remove_document_state [of vs document_name]
  have a: "documents vs' = AList.delete document_name (documents vs)"
    and b: "collection vs' =
           (case map_of (documents vs) document_name of
              None \<Rightarrow> collection vs
            | Some old \<Rightarrow> collection_delete (collection vs) (chunk_ids old))"
    by simp_all
  have "document_name \<notin> set (get_documents vs) \<longrightarrow>
            documents vs' = documents vs \<and> collection vs' = collection vs"
  proof
    assume "document_name \<notin> set (get_documents vs)"
    then have u: "document_name \<notin> set (map fst (documents vs))" by (simp add: get_documents_def)
    then have "map_of (documents vs) document_name = None" by (simp add: map_of_eq_None_iff)
    with a b delete_fresh [OF u] show "documents vs' = documents vs \<and> collection vs' = collection vs"
      by simp
  qed
  with a b show ?thesis by blast
qed

lemma failed_readd_example:
  "add_document down_api one_doc_store (lit ''a'') [second_chunk]
     = (Inl (Exc RequestsConnectionError (lit ''Connection refused'')),
        \<lparr>documents = [], collection = [], embedding_posts = 1\<rparr>)"
  by (simp add: add_document_def remove_document_def one_doc_store_def down_api_def
        get_embedding_def collection_delete_def second_chunk_def)

theorem add_document_failure_removes_old_version_witness:
  "add_document down_api one_doc_store (lit ''a'') [second_chunk]
     = (Inl (Exc RequestsConnectionError (lit ''Connection refused'')),
        \<lparr>documents = [], collection = [], embedding_posts = 1\<rparr>) \<and>
   documents \<lparr>documents = [], collection = [], embedding_posts = 1\<rparr>
     = AList.delete (lit ''a'') (documents one_doc_store)"
  using add_document_failure_removes_old_version [OF failed_readd_example] failed_readd_example
  by blast

text \<open>The claim as stated fails: re-uploading the one registered document while the
  embedding endpoint is unreachable leaves an empty registry and an empty index.\<close>

theorem add_document_failure_counterexample:
  "fst (add_document down_api one_doc_store (lit ''a'') [second_chunk])
     = Inl (Exc RequestsConnectionError (lit ''Connection refused'')) \<and>
   get_documents one_doc_store = [lit ''a''] \<and>
   get_documents (snd (add_document down_api one_doc_store (lit ''a'') [second_chunk])) = [] \<and>
   total_chunk_count one_doc_store = 1 \<and>
   total_chunk_count (snd (add_document down_api one_doc_store (lit ''a'') [second_chunk])) = 0"
  by (simp add: failed_readd_example get_documents_def total_chunk_count_def collection_ids_def)
     (simp add: one_doc_store_def)

subsection \<open>Add, then remove\<close>

text \<open>
  Claim C4, as the code has it. For a name that is not registered, adding a non-empty
  chunk list and then removing the name gives back the registry and the index from
  before the add, and so the same document count and chunk count.
\<close>

theorem add_then_remove_restores:
  assumes ok: "registry_ok vs"
      and ne: "cs \<noteq> []"
      and unreg: "document_name \<notin> set (get_documents vs)"
      and ad: "add_document api vs document_name cs = (Inr n, vs1)"
  shows "fst (remove_document vs1 document_name) = True \<and>
         documents (snd (remove_document vs1 document_name)) = documents vs \<and>
         collection (snd (remove_document vs1 document_name)) = collection vs \<and>
         document_count (snd (remove_document vs1 document_name)) = document_count vs \<and>
         total_chunk_count (snd (remove_document vs1 document_name)) = total_chunk_count vs"
proof -
  from unreg have "document_name \<notin> set (map fst (documents vs))" by (simp add: get_documents_def)
  with ok have "set (new_ids document_name cs) \<inter> set (collection_ids (collection vs)) = {}"
    by (rule fresh_ids_unregistered)
  then have "set (map (doc_chunk_id document_name) [0..<length cs])
               \<inter> set (collection_ids (collection vs)) = {}"
    by (simp add: new_ids_def)
  from add_then_remove_restores_fresh [OF ne unreg this ad] show ?thesis .
qed

theorem add_then_remove_restores_witness:
  "registry_ok empty_store \<and> [example_chunk] \<noteq> [] \<and>
   lit ''a'' \<notin> set (get_documents empty_store) \<and>
   add_document working_api empty_store (lit ''a'') [example_chunk]
     = (Inr 1, one_doc_store\<lparr>embedding_posts := 1\<rparr>) \<and>
   documents (snd (remove_document (one_doc_store\<lparr>embedding_posts := 1\<rparr>) (lit ''a'')))
     = documents empty_store \<and>
   collection (snd (remove_document (one_doc_store\<lparr>embedding_posts := 1\<rparr>) (lit ''a'')))
     = collection empty_store"
proof -
  have h2: "[example_chunk] \<noteq> []" by simp
  have h3: "lit ''a'' \<notin> set (get_documents empty_store)"
    by (simp add: get_documents_def empty_store_def)
  from add_then_remove_restores [OF registry_ok_empty h2 h3 one_doc_store_reachable]
    registry_ok_empty h3 one_doc_store_reachable
  show ?thesis by simp
qed

text \<open>With a previous version registered the claim fails: the add replaces that version
  and the remove deletes the replacement, so one document and one chunk before become
  none after.\<close>

theorem add_then_remove_counterexample:
  "document_count one_doc_store = 1 \<and> total_chunk_count one_doc_store = 1 \<and>
   fst (add_document working_api one_doc_store (lit ''a'') [second_chunk]) = Inr 1 \<and>
   document_count (snd (remove_document
      (snd (add_document working_api one_doc_store (lit ''a'') [second_chunk])) (lit ''a''))) = 0 \<and>
   total_chunk_count (snd (remove_document
      (snd (add_document working_api one_doc_store (lit ''a'') [second_chunk])) (lit ''a''))) = 0"
  by (simp add: add_document_def remove_document_def one_doc_store_def working_api_def
        get_embedding_def collection_add_def collection_delete_def collection_ids_def
        doc_chunk_id_def lit_def str_nat.simps enumerate_eq_zip second_chunk_def
        document_count_def total_chunk_count_def)


subsection \<open>Uploading a document again\<close>

text \<open>
  Claim C5, as the code has it. Adding a registered name again with a non-empty chunk
  list leaves one version: the registry has one entry for the name, with the chunk count
  and the ids of the new chunk list, and the index is the old index without the records
  of the old version, followed by one record per new chunk. The ids are
  \<open>doc_<name>_<i>\<close> for both versions, so an id of the old version that is still in
  the index is an id of the new version and names a new chunk.
\<close>

theorem readd_document_replaces:
  assumes ok: "registry_ok vs"
      and reg: "map_of (documents vs) document_name = Some old"
      and ne: "cs \<noteq> []"
      and ad: "add_document api vs document_name cs = (Inr n, vs')"
  shows "length (filter (\<lambda>(k, info). k = document_name) (documents vs')) = 1 \<and>
         map_of (documents vs') document_name =
           Some \<lparr>chunk_count = length cs, chunk_ids = new_ids document_name cs\<rparr> \<and>
         (\<exists>embs. length embs = length cs \<and>
            collection vs' = collection_delete (collection vs) (chunk_ids old) @
                               zip (new_ids document_name cs) (new_records embs cs)) \<and>
         (\<forall>k \<in> set (chunk_ids old).
            k \<in> set (collection_ids (collection vs')) \<longrightarrow> k \<in> set (new_ids document_name cs))"
proof -
  from add_document_success_registry [OF ok ne ad] obtain embs where
    l: "length embs = length cs"
    and c: "collection vs' = collection (snd (remove_document vs document_name)) @
              zip (new_ids document_name cs) (new_records embs cs)"
    and d: "documents vs' = AList.delete document_name (documents vs) @
              [(document_name, \<lparr>chunk_count = length cs, chunk_ids = new_ids document_name cs\<rparr>)]"
    by blast
  have c1: "collection (snd (remove_document vs document_name))
              = collection_delete (collection vs) (chunk_ids old)"
    using remove_document_state [of vs document_name] reg by simp
  have un: "document_name \<notin> set (map fst (AList.delete document_name (documents vs)))"
    by (auto simp: set_delete)
  have f: "filter (\<lambda>(k, info). k = document_name) (AList.delete document_name (documents vs)) = []"
    by (auto simp: filter_empty_conv set_delete)
  have 1: "length (filter (\<lambda>(k, info). k = document_name) (documents vs')) = 1"
    unfolding d by (simp add: f)
  have "map_of (AList.delete document_name (documents vs)) document_name = None"
    by (simp add: delete_conv)
  then have 2: "map_of (documents vs') document_name =
           Some \<lparr>chunk_count = length cs, chunk_ids = new_ids document_name cs\<rparr>"
    unfolding d by (simp add: map_add_def)
  have 3: "collection vs' = collection_delete (collection vs) (chunk_ids old) @
                               zip (new_ids document_name cs) (new_records embs cs)"
    using c c1 by simp
  have 4: "\<forall>k \<in> set (chunk_ids old).
            k \<in> set (collection_ids (collection vs')) \<longrightarrow> k \<in> set (new_ids document_name cs)"
    unfolding 3 collection_ids_def collection_delete_def
    by (auto dest: set_zip_leftD)
  from 1 2 3 4 l show ?thesis by blast
qed

lemma readd_example:
  "add_document working_api one_doc_store (lit ''a'') [second_chunk]
     = (Inr 1,
        \<lparr>documents = [(lit ''a'', \<lparr>chunk_count = 1, chunk_ids = [lit ''doc_a_0'']\<rparr>)],
         collection = [(lit ''doc_a_0'', \<lparr>rec_embedding = [0], rec_document = lit ''y'',
            rec_metadata = \<lparr>meta_document = lit ''a'', meta_page = 2, chunk_index = 0\<rparr>\<rparr>)],
         embedding_posts = 1\<rparr>)"
  by (simp add: add_document_def remove_document_def one_doc_store_def working_api_def
        get_embedding_def collection_add_def collection_delete_def collection_ids_def
        doc_chunk_id_def lit_def str_nat.simps enumerate_eq_zip second_chunk_def)

lemma one_doc_store_registered:
  "map_of (documents one_doc_store) (lit ''a'')
     = Some \<lparr>chunk_count = 1, chunk_ids = [lit ''doc_a_0'']\<rparr>"
  by (simp add: one_doc_store_def)

theorem readd_document_replaces_witness:
  "registry_ok one_doc_store \<and>
   map_of (documents one_doc_store) (lit ''a'')
     = Some \<lparr>chunk_count = 1, chunk_ids = [lit ''doc_a_0'']\<rparr> \<and>
   [second_chunk] \<noteq> [] \<and>
   map_of (documents (snd (add_document working_api one_doc_store (lit ''a'') [second_chunk])))
       (lit ''a'')
     = Some \<lparr>chunk_count = length [second_chunk], chunk_ids = new_ids (lit ''a'') [second_chunk]\<rparr>"
proof -
  have ne: "[second_chunk] \<noteq> []" by simp
  from readd_document_replaces [OF registry_ok_one_doc_store one_doc_store_registered ne readd_example]
    registry_ok_one_doc_store one_doc_store_registered readd_example
  show ?thesis by simp
qed

text \<open>The claim as stated says that no id of the old version remains in the index; the
  id \<open>doc_a_0\<close> of the old version is the id of the first chunk of the new one.\<close>

theorem readd_document_counterexample:
  "map_of (documents one_doc_store) (lit ''a'')
     = Some \<lparr>chunk_count = 1, chunk_ids = [lit ''doc_a_0'']\<rparr> \<and>
   fst (add_document working_api one_doc_store (lit ''a'') [second_chunk]) = Inr 1 \<and>
   lit ''doc_a_0'' \<in> set (collection_ids (collection
      (snd (add_document working_api one_doc_store (lit ''a'') [second_chunk]))))"
  by (simp add: readd_example one_doc_store_registered collection_ids_def)

subsection \<open>Removing a document\<close>

text \<open>
  Claim C10. Removing a registered document \<open>n\<close> deletes from the index exactly the
  records stored under the ids registered for \<open>n\<close> and drops the registry entry of
  \<open>n\<close>; for every other name \<open>d\<close> the registry entry is unchanged and the records
  tagged with \<open>d\<close> are the same before and after.
\<close>

theorem remove_document_frame:
  assumes tg: "tags_ok vs"
      and reg: "map_of (documents vs) n = Some info"
      and dn: "d \<noteq> n"
  shows "fst (remove_document vs n) = True \<and>
         map_of (documents (snd (remove_document vs n))) n = None \<and>
         map_of (documents (snd (remove_document vs n))) d = map_of (documents vs) d \<and>
         collection (snd (remove_document vs n))
           = filter (\<lambda>(i, r). i \<notin> set (chunk_ids info)) (collection vs) \<and>
         filter (\<lambda>(i, r). meta_document (rec_metadata r) = d) (collection (snd (remove_document vs n)))
           = filter (\<lambda>(i, r). meta_document (rec_metadata r) = d) (collection vs)"
proof -
  let ?vs' = "snd (remove_document vs n)"
  have 0: "fst (remove_document vs n) = True" using reg by (simp add: remove_document_def)
  have dd: "documents ?vs' = AList.delete n (documents vs)"
    and c: "collection ?vs' = filter (\<lambda>(i, r). i \<notin> set (chunk_ids info)) (collection vs)"
    using remove_document_state [of vs n] reg by (simp_all add: collection_delete_def)
  have 1: "map_of (documents ?vs') n = None" unfolding dd by (simp add: delete_conv)
  have 2: "map_of (documents ?vs') d = map_of (documents vs) d"
    unfolding dd using dn by (simp add: delete_conv)
  from reg have mem: "(n, info) \<in> set (documents vs)" by (rule map_of_SomeD)
  have "\<forall>x \<in> set (collection vs).
          (\<lambda>(i, r). meta_document (rec_metadata r) = d) x \<longrightarrow>
          (\<lambda>(i, r). i \<notin> set (chunk_ids info)) x"
    using tg mem dn unfolding tags_ok_def by fastforce
  then have 3: "filter (\<lambda>(i, r). meta_document (rec_metadata r) = d) (collection ?vs')
           = filter (\<lambda>(i, r). meta_document (rec_metadata r) = d) (collection vs)"
    unfolding c filter_filter by (intro filter_cong) auto
  from 0 1 2 c 3 show ?thesis by blast
qed

theorem remove_document_frame_witness:
  "tags_ok two_doc_store \<and>
   map_of (documents two_doc_store) (lit ''a'')
     = Some \<lparr>chunk_count = 1, chunk_ids = [lit ''doc_a_0'']\<rparr> \<and>
   lit ''b'' \<noteq> lit ''a'' \<and>
   map_of (documents (snd (remove_document two_doc_store (lit ''a'')))) (lit ''b'')
     = map_of (documents two_doc_store) (lit ''b'') \<and>
   filter (\<lambda>(i, r). meta_document (rec_metadata r) = lit ''b'')
       (collection (snd (remove_document two_doc_store (lit ''a''))))
     = filter (\<lambda>(i, r). meta_document (rec_metadata r) = lit ''b'') (collection two_doc_store)"
proof -
  have reg: "map_of (documents two_doc_store) (lit ''a'')
               = Some \<lparr>chunk_count = 1, chunk_ids = [lit ''doc_a_0'']\<rparr>"
    by (simp add: two_doc_store_def)
  have dn: "lit ''b'' \<noteq> lit ''a''" by (simp add: lit_def)
  from remove_document_frame [OF tags_ok_two_doc_store reg dn] tags_ok_two_doc_store reg dn
  show ?thesis by blast
qed

subsection \<open>Query\<close>

lemma hit_distance_format_hit: "hit_distance (format_hit h) = snd (snd h)"
  by (cases h) (simp add: format_hit_def)

text \<open>What a result of the collection's query is: at most as many records as asked for,
  no more than the collection holds, nearest first.\<close>

lemma collection_query_contract:
  assumes "collection_query space col qe n w = Inr rs"
  shows "length rs \<le> nat n \<and> length rs \<le> length col \<and> sorted (map (\<lambda>h. snd (snd h)) rs)"
proof -
  let ?xs = "map (\<lambda>(i, r). (rec_document r, rec_metadata r, distance space qe (rec_embedding r)))
               (filter (\<lambda>(i, r). case w of None \<Rightarrow> True
                                   | Some d \<Rightarrow> meta_document (rec_metadata r) = d) col)"
  from assms have rs: "rs = take (nat n) (sort_key (\<lambda>(d, m, x). x) ?xs)"
    by (simp add: collection_query_def split: if_splits)
  have k: "(\<lambda>h::pystr \<times> metadata \<times> real. snd (snd h)) = (\<lambda>(d, m, x). x)" by auto
  have "sorted (map (\<lambda>(d, m, x). x) (sort_key (\<lambda>(d, m, x). x) ?xs))" by (rule sorted_sort_key)
  then have "sorted (take (nat n) (map (\<lambda>(d, m, x). x) (sort_key (\<lambda>(d, m, x). x) ?xs)))"
    by (rule sorted_wrt_take)
  then have s: "sorted (map (\<lambda>h. snd (snd h)) rs)" unfolding rs k take_map .
  have "length rs \<le> length ?xs" unfolding rs by simp
  also have "\<dots> \<le> length col" by simp
  finally have "length rs \<le> length col" .
  moreover have "length rs \<le> nat n" unfolding rs by simp
  ultimately show ?thesis using s by blast
qed

text \<open>When the collection's query returns: a non-empty query embedding of the
  collection's dimension, and a result count of at least one.\<close>

lemma collection_query_returns:
  assumes "qe \<noteq> []" and "0 < n"
      and "index_dimension space col = None \<or> index_dimension space col = Some (length qe)"
  shows "\<exists>rs. collection_query space col qe n w = Inr rs"
  using assms by (auto simp: collection_query_def)

lemma get_embedding_collection:
  "get_embedding api vs t = (r, vs') \<Longrightarrow> collection vs' = collection vs"
  using get_embedding_frame [of api vs t] by simp

lemma query_unfold:
  assumes ge: "get_embedding api vs q = (Inr qe, vs1)"
  shows "query api space vs q k f =
     (case collection_query space (collection vs) qe (effective_n_results vs k) (where_of_filter f) of
        Inl e \<Rightarrow> (Inl e, vs1)
      | Inr rs \<Rightarrow> (Inr (map format_hit rs), vs1))"
proof -
  from get_embedding_collection [OF ge] have c: "collection vs1 = collection vs" .
  show ?thesis
    unfolding query_def effective_n_results_def where_of_filter_def
    by (simp add: ge c Let_def)
qed

lemma effective_n_results_eq:
  "effective_n_results vs k =
     (if 0 < total_chunk_count vs then min k (int (total_chunk_count vs)) else 1)"
  by (simp add: effective_n_results_def total_chunk_count_def)

text \<open>
  Claim C6, as the code has it. \<open>query\<close> requests the embedding of the question
  first, whatever the index holds, and a failure of that request is raised to the caller.
  With the embedding in hand it asks the collection for \<open>min(k, total)\<close> nearest
  records, for one when the index is empty, under the filter when the document filter is
  a non-empty name; what the collection raises is raised to the caller, and the
  collection's results are returned in the collection's order. \<open>query\<close> returns
  whenever the embedding is non-empty and of the collection's dimension and \<open>k\<close> is at
  least one or the index is empty. Whenever it returns, it returns at most
  \<open>min(k, total)\<close> results, in ascending order of distance, and none on an empty index.
\<close>

theorem query_results:
  "(\<forall>e vs1. get_embedding api vs q = (Inl e, vs1) \<longrightarrow>
      query api space vs q k f = (Inl e, vs1)) \<and>
   (\<forall>qe vs1. get_embedding api vs q = (Inr qe, vs1) \<longrightarrow>
      query api space vs q k f =
        (case collection_query space (collection vs) qe
                (if 0 < total_chunk_count vs then min k (int (total_chunk_count vs)) else 1)
                (case f of None \<Rightarrow> None | Some d \<Rightarrow> if d = [] then None else Some d) of
           Inl e \<Rightarrow> (Inl e, vs1)
         | Inr rs \<Rightarrow> (Inr (map format_hit rs), vs1)) \<and>
      (qe \<noteq> [] \<and>
       (index_dimension space (collection vs) = None \<or>
        index_dimension space (collection vs) = Some (length qe)) \<and>
       (1 \<le> k \<or> collection vs = []) \<longrightarrow>
       (\<exists>hits. query api space vs q k f = (Inr hits, vs1)))) \<and>
   (\<forall>hits vs'. query api space vs q k f = (Inr hits, vs') \<longrightarrow>
      length hits \<le> nat (min k (int (total_chunk_count vs))) \<and>
      sorted (map hit_distance hits) \<and>
      (collection vs = [] \<longrightarrow> hits = []))"
proof (intro conjI allI impI)
  fix e vs1
  assume "get_embedding api vs q = (Inl e, vs1)"
  then show "query api space vs q k f = (Inl e, vs1)" by (simp add: query_def)
next
  fix qe vs1
  assume ge: "get_embedding api vs q = (Inr qe, vs1)"
  show "query api space vs q k f =
        (case collection_query space (collection vs) qe
                (if 0 < total_chunk_count vs then min k (int (total_chunk_count vs)) else 1)
                (case f of None \<Rightarrow> None | Some d \<Rightarrow> if d = [] then None else Some d) of
           Inl e \<Rightarrow> (Inl e, vs1)
         | Inr rs \<Rightarrow> (Inr (map format_hit rs), vs1))"
    using query_unfold [OF ge, of space k f]
    unfolding effective_n_results_eq where_of_filter_def .
next
  fix qe vs1
  assume ge: "get_embedding api vs q = (Inr qe, vs1)"
    and h: "qe \<noteq> [] \<and>
       (index_dimension space (collection vs) = None \<or>
        index_dimension space (collection vs) = Some (length qe)) \<and>
       (1 \<le> k \<or> collection vs = [])"
  from h have "0 < effective_n_results vs k"
    by (cases "collection_ids (collection vs)")
       (auto simp: effective_n_results_def collection_ids_def)
  with h collection_query_returns [of qe "effective_n_results vs k" space "collection vs"
         "where_of_filter f"]
  obtain rs where
    "collection_query space (collection vs) qe (effective_n_results vs k) (where_of_filter f) = Inr rs"
    by blast
  then show "\<exists>hits. query api space vs q k f = (Inr hits, vs1)"
    unfolding query_unfold [OF ge] by simp
next
  fix hits vs'
  assume qr: "query api space vs q k f = (Inr hits, vs')"
  obtain r vs1 where ge0: "get_embedding api vs q = (r, vs1)" by (cases "get_embedding api vs q")
  from qr ge0 obtain qe where r: "r = Inr qe" by (cases r) (simp_all add: query_def)
  from ge0 r have ge: "get_embedding api vs q = (Inr qe, vs1)" by simp
  from qr [unfolded query_unfold [OF ge]] obtain rs where
    cq: "collection_query space (collection vs) qe (effective_n_results vs k) (where_of_filter f) = Inr rs"
    and hs: "hits = map format_hit rs"
    by (auto split: sum.splits)
  from collection_query_contract [OF cq]
  have l1: "length rs \<le> nat (effective_n_results vs k)"
    and l2: "length rs \<le> length (collection vs)"
    and s: "sorted (map (\<lambda>h. snd (snd h)) rs)" by simp_all
  have "length rs \<le> nat (min k (int (length (collection vs))))"
  proof (cases "collection vs = []")
    case True
    with l2 show ?thesis by simp
  next
    case False
    with l1 show ?thesis by (simp add: effective_n_results_def collection_ids_def)
  qed
  then show "length hits \<le> nat (min k (int (total_chunk_count vs)))"
    by (simp add: hs total_chunk_count_def collection_ids_def)
  show "sorted (map hit_distance hits)"
    using s by (simp add: hs comp_def hit_distance_format_hit)
  show "collection vs = [] \<Longrightarrow> hits = []" using l2 by (simp add: hs)
qed

lemma ranked_store_embedding:
  "get_embedding working_api ranked_store (lit ''q'')
     = (Inr [0], ranked_store\<lparr>embedding_posts := 1\<rparr>)"
  by (simp add: get_embedding_def working_api_def ranked_store_def)

lemma ranked_store_query:
  "query working_api line_space ranked_store (lit ''q'') 5 None
     = (Inr [\<lparr>hit_content = lit ''near'',
               hit_metadata = \<lparr>meta_document = lit ''a'', meta_page = 2, chunk_index = 1\<rparr>,
               hit_distance = 1, hit_page = 2, hit_document = lit ''a''\<rparr>,
             \<lparr>hit_content = lit ''far'',
               hit_metadata = \<lparr>meta_document = lit ''a'', meta_page = 1, chunk_index = 0\<rparr>,
               hit_distance = 3, hit_page = 1, hit_document = lit ''a''\<rparr>],
        ranked_store\<lparr>embedding_posts := 1\<rparr>)"
  by (simp add: query_def get_embedding_def working_api_def ranked_store_def line_space_def
        collection_query_def collection_ids_def index_dimension_def format_hit_def Let_def)

lemma ranked_store_down:
  "get_embedding down_api ranked_store (lit ''q'')
     = (Inl (Exc RequestsConnectionError (lit ''Connection refused'')),
        ranked_store\<lparr>embedding_posts := 1\<rparr>)"
  by (simp add: get_embedding_def down_api_def ranked_store_def)

lemma ranked_store_query':
  "query working_api line_space ranked_store (lit ''q'') 5 None
     = (Inr [near_hit, far_hit], ranked_store\<lparr>embedding_posts := 1\<rparr>)"
  by (simp add: ranked_store_query near_hit_def far_hit_def)

theorem query_results_witness:
  "get_embedding working_api ranked_store (lit ''q'')
     = (Inr [0], ranked_store\<lparr>embedding_posts := 1\<rparr>) \<and>
   index_dimension line_space (collection ranked_store) = Some (length [0::real]) \<and>
   query working_api line_space ranked_store (lit ''q'') 5 None
     = (Inr [near_hit, far_hit], ranked_store\<lparr>embedding_posts := 1\<rparr>) \<and>
   length [near_hit, far_hit] \<le> nat (min 5 (int (total_chunk_count ranked_store))) \<and>
   sorted (map hit_distance [near_hit, far_hit]) \<and>
   get_embedding down_api ranked_store (lit ''q'')
     = (Inl (Exc RequestsConnectionError (lit ''Connection refused'')),
        ranked_store\<lparr>embedding_posts := 1\<rparr>) \<and>
   query down_api line_space ranked_store (lit ''q'') 5 None
     = (Inl (Exc RequestsConnectionError (lit ''Connection refused'')),
        ranked_store\<lparr>embedding_posts := 1\<rparr>)"
proof -
  have d: "index_dimension line_space (collection ranked_store) = Some (length [0::real])"
    by (simp add: index_dimension_def ranked_store_def)
  from query_results [of working_api ranked_store "lit ''q''" line_space 5 None]
    ranked_store_query'
  have b: "length [near_hit, far_hit] \<le> nat (min 5 (int (total_chunk_count ranked_store)))"
    and s: "sorted (map hit_distance [near_hit, far_hit])" by blast+
  from query_results [of down_api ranked_store "lit ''q''" line_space 5 None] ranked_store_down
  have f: "query down_api line_space ranked_store (lit ''q'') 5 None
     = (Inl (Exc RequestsConnectionError (lit ''Connection refused'')),
        ranked_store\<lparr>embedding_posts := 1\<rparr>)" by blast
  show ?thesis
    by (intro conjI) (rule ranked_store_embedding d ranked_store_query' b s ranked_store_down f)+
qed

text \<open>The claim as stated says that \<open>query\<close> does not raise on an empty index; when
  the embedding endpoint answers 404, \<open>_get_embedding\<close> raises its \<open>RuntimeError\<close>
  and \<open>query\<close> lets it pass.\<close>

theorem query_empty_index_counterexample:
  "collection empty_store = [] \<and> total_chunk_count empty_store = 0 \<and>
   fst (query missing_model_api flat_space empty_store (lit ''q'') 4 None)
     = Inl (Exc RuntimeError (lit ''Ollama embedding failed: model not found''))"
  by (simp add: query_def get_embedding_def missing_model_api_def empty_store_def
        total_chunk_count_def collection_ids_def lit_def)

subsection \<open>Uploads keep the invariants\<close>

text \<open>Every chunk of \<open>smart_chunk_text\<close> carries the document name it was given, so
  the upload path, which adds the chunks of a document under that name, keeps the
  registry and the tags consistent.\<close>

lemma sentence_step_document:
  assumes "\<forall>c \<in> set (fst st). chunk_document c = doc"
  shows "\<forall>c \<in> set (fst (sentence_step pg doc S ov st s)). chunk_document c = doc"
  using assms by (cases st) (auto simp: sentence_step_def)

lemma foldl_sentence_step_document:
  "\<forall>c \<in> set (fst st). chunk_document c = doc \<Longrightarrow>
   \<forall>c \<in> set (fst (foldl (sentence_step pg doc S ov) st ss)). chunk_document c = doc"
proof (induction ss arbitrary: st)
  case Nil
  then show ?case by simp
next
  case (Cons s ss)
  from Cons.IH [OF sentence_step_document [OF Cons.prems]] show ?case by simp
qed

lemma split_long_paragraph_document:
  "\<forall>c \<in> set (split_long_paragraph para pg doc S ov). chunk_document c = doc"
proof -
  obtain cs cur where f: "foldl (sentence_step pg doc S ov) ([], []) (split_sentences para) = (cs, cur)"
    by (cases "foldl (sentence_step pg doc S ov) ([], []) (split_sentences para)")
  have "\<forall>c \<in> set (fst ([], [] :: pystr)). chunk_document c = doc" by simp
  from foldl_sentence_step_document [OF this, of pg S ov "split_sentences para"] f
  have "\<forall>c \<in> set cs. chunk_document c = doc" by simp
  then show ?thesis by (simp add: split_long_paragraph_def f)
qed

lemma flush_chunk_document:
  "\<forall>c \<in> set (chunk_list st). chunk_document c = doc \<Longrightarrow>
   \<forall>c \<in> set (flush_chunk doc st). chunk_document c = doc"
  by (simp add: flush_chunk_def)

lemma paragraph_step_document:
  assumes "\<forall>c \<in> set (chunk_list st). chunk_document c = doc"
  shows "\<forall>c \<in> set (chunk_list (paragraph_step nd doc S ov st p)). chunk_document c = doc"
  using assms split_long_paragraph_document [of _ _ doc S ov]
  by (auto simp: paragraph_step_def Let_def flush_chunk_def)

lemma foldl_paragraph_step_document:
  "\<forall>c \<in> set (chunk_list st). chunk_document c = doc \<Longrightarrow>
   \<forall>c \<in> set (chunk_list (foldl (paragraph_step nd doc S ov) st ps)). chunk_document c = doc"
proof (induction ps arbitrary: st)
  case Nil
  then show ?case by simp
next
  case (Cons p ps)
  from Cons.IH [OF paragraph_step_document [OF Cons.prems]] show ?case by simp
qed

lemma smart_chunk_text_document:
  "\<forall>c \<in> set (smart_chunk_text nd txt page_map doc S ov). chunk_document c = doc"
proof (cases "txt = [] \<or> strip txt = []")
  case True
  then show ?thesis by (auto simp: smart_chunk_text_def)
next
  case False
  let ?init = "\<lparr>chunk_list = [], current_page = 1, current_chunk = [], current_chunk_page = 1\<rparr>"
  have "\<forall>c \<in> set (chunk_list ?init). chunk_document c = doc" by simp
  from flush_chunk_document [OF foldl_paragraph_step_document [OF this]] False
  show ?thesis by (simp add: smart_chunk_text_def)
qed

text \<open>Uploading the chunks of a document under its name keeps both invariants.\<close>

lemma upload_keeps_invariants:
  assumes "registry_ok vs" and "tags_ok vs"
  shows "registry_ok (snd (add_document api vs name (smart_chunk_text nd txt page_map name S ov))) \<and>
         tags_ok (snd (add_document api vs name (smart_chunk_text nd txt page_map name S ov)))"
  using assms registry_ok_add tags_ok_add smart_chunk_text_document by blast

subsection \<open>The separator in the accumulate test\<close>

text \<open>The test that lets a paragraph join the buffer counts one character for the
  separator and the buffer then takes two: paragraphs of four and five characters fill a
  chunk of size 10 with eleven characters, with no overlap involved.\<close>

lemma accumulate_separator_example:
  "map (\<lambda>c. length (chunk_text c))
     (smart_chunk_text ascii_only (lit ''aaaa'' @ [10, 10] @ lit ''bbbbb'') [] (lit ''d'') 10 0)
   = [11]"
  by (simp add: smart_chunk_text_def lit_def split_paragraphs_def strip_def isspace_def
        paragraph_step_def paragraph_page_def paragraph_body_def match_page_marker_def
        flush_chunk_def Let_def)

end
